theory Spec2Isabelle
  imports Main "HOL-Library.Monad_Syntax"
begin

section \<open>Strings and numbers of the JavaScript runtime\<close>

text \<open>
  A JavaScript string is a sequence of UTF-16 code units; the model keeps the code units as
  natural numbers, so the Hangul keyword tables of \<^verbatim>\<open>config/naver.ts\<close> are written by
  their code points. Numbers that the program only ever produces from \<^verbatim>\<open>parseInt\<close>, from
  lengths and from integer arithmetic are modelled as mathematical integers (a digit string
  beyond \<open>2^53\<close> would be rounded to a double by the runtime; the model keeps it exact).
\<close>

type_synonym jsstring = "nat list"

definition ascii :: "string \<Rightarrow> jsstring" where
  "ascii s = map of_char s"

text \<open>\<^verbatim>\<open>String.prototype.includes\<close>: the keyword occurs as a contiguous run of code units.\<close>

fun str_includes :: "jsstring \<Rightarrow> jsstring \<Rightarrow> bool" where
  "str_includes [] k = (k = [])"
| "str_includes (c # cs) k = (take (length k) (c # cs) = k \<or> str_includes cs k)"

text \<open>
  The white space that \<^verbatim>\<open>String.prototype.trim\<close> and \<^verbatim>\<open>parseInt\<close> skip: ECMAScript's
  WhiteSpace and LineTerminator code points.
\<close>

definition isWhiteSpace :: "nat \<Rightarrow> bool" where
  "isWhiteSpace c \<longleftrightarrow>
     c = 0x09 \<or> c = 0x0A \<or> c = 0x0B \<or> c = 0x0C \<or> c = 0x0D \<or> c = 0x20 \<or> c = 0xA0 \<or>
     c = 0x1680 \<or> (0x2000 \<le> c \<and> c \<le> 0x200A) \<or> c = 0x2028 \<or> c = 0x2029 \<or>
     c = 0x202F \<or> c = 0x205F \<or> c = 0x3000 \<or> c = 0xFEFF"

definition trim :: "jsstring \<Rightarrow> jsstring" where
  "trim s = rev (dropWhile isWhiteSpace (rev (dropWhile isWhiteSpace s)))"

text \<open>
  \<^verbatim>\<open>html.replace(/<[^>]*>/g, "")\<close>: scanning from the left, a \<^verbatim>\<open><\<close> that is followed
  somewhere by a \<^verbatim>\<open>>\<close> is removed together with everything up to and including the first
  such \<^verbatim>\<open>>\<close>; a \<^verbatim>\<open><\<close> with no \<^verbatim>\<open>>\<close> after it stays.
\<close>

function stripTags :: "jsstring \<Rightarrow> jsstring" where
  "stripTags [] = []"
| "stripTags (c # cs) =
     (if c = 0x3C \<and> 0x3E \<in> set cs
      then stripTags (tl (dropWhile (\<lambda>x. x \<noteq> 0x3E) cs))
      else c # stripTags cs)"
  by pat_completeness auto
termination
proof (relation "measure length")
  show "wf (measure (length :: jsstring \<Rightarrow> nat))" by simp
next
  fix c :: nat and cs :: jsstring
  have "length (tl (dropWhile (\<lambda>x. x \<noteq> 0x3E) cs)) \<le> length cs"
    using length_dropWhile_le [of "\<lambda>x. x \<noteq> 0x3E" cs] by simp
  then show "(tl (dropWhile (\<lambda>x. x \<noteq> 0x3E) cs), c # cs) \<in> measure length"
    by simp
next
  fix c :: nat and cs :: jsstring
  show "(cs, c # cs) \<in> measure length" by simp
qed

definition stripHtmlTags :: "jsstring \<Rightarrow> jsstring" where
  "stripHtmlTags html = trim (stripTags html)"

text \<open>
  \<^verbatim>\<open>parseInt(value, 10)\<close>: leading white space is skipped, one sign is read, then the longest
  run of decimal digits; no digit at all gives \<^verbatim>\<open>NaN\<close>, which is \<open>None\<close> here.
\<close>

definition isDigit :: "nat \<Rightarrow> bool" where
  "isDigit c \<longleftrightarrow> 0x30 \<le> c \<and> c \<le> 0x39"

definition digitsValue :: "jsstring \<Rightarrow> int" where
  "digitsValue ds = foldl (\<lambda>acc c. 10 * acc + int (c - 0x30)) 0 ds"

definition parseInt10 :: "jsstring \<Rightarrow> int option" where
  "parseInt10 s =
     (let t = dropWhile isWhiteSpace s;
          sgn = (case t of [] \<Rightarrow> 1 | c # r \<Rightarrow> if c = 0x2D then - 1 else (1 :: int));
          u = (case t of [] \<Rightarrow> [] | c # r \<Rightarrow> if c = 0x2D \<or> c = 0x2B then r else t);
          z = takeWhile isDigit u
      in if z = [] then None else Some (sgn * digitsValue z))"

definition safeParseInt :: "jsstring \<Rightarrow> int \<Rightarrow> int" where
  "safeParseInt v defaultValue =
     (case parseInt10 v of None \<Rightarrow> defaultValue | Some parsed \<Rightarrow> parsed)"

section \<open>Types (types/naver.ts) and configuration (config/naver.ts)\<close>

datatype SortOption = Sim | Date | Asc | Dsc

datatype ExcludeOption = Used | Rental | Cbshop

datatype RelaxationStep = DropFilterNoise | DropExclude | ReducePages | IncreasePages

record NaverShopRawItem =
  title :: jsstring
  link :: jsstring
  image :: jsstring
  lprice :: jsstring
  hprice :: jsstring
  mallName :: jsstring
  productId :: jsstring
  productType :: jsstring
  brand :: jsstring
  maker :: jsstring
  category1 :: jsstring
  category2 :: jsstring
  category3 :: jsstring
  category4 :: jsstring

record Item =
  title :: jsstring
  titleText :: jsstring
  lprice :: int
  hprice :: int
  mallName :: jsstring
  link :: jsstring
  image :: "jsstring option"
  productId :: jsstring
  productType :: jsstring
  brand :: "jsstring option"
  maker :: "jsstring option"
  category1 :: "jsstring option"
  category2 :: "jsstring option"
  category3 :: "jsstring option"
  category4 :: "jsstring option"

record SearchFilters =
  minPrice :: "int option"
  maxPrice :: "int option"
  sort :: SortOption
  exclude :: "ExcludeOption list option"
  pages :: int
  filterNoise :: bool

record AppliedFilters =
  minPrice :: "int option"
  maxPrice :: "int option"
  filterNoise :: bool
  exclude :: "ExcludeOption list option"
  excludeKeywordsEnabled :: bool
  pages :: int

record FilteringResult =
  items :: "Item list"
  filterRelaxed :: bool
  appliedRelaxation :: "RelaxationStep list"
  appliedFilters :: AppliedFilters
  excludedByKeywordsCount :: nat

text \<open>\<^verbatim>\<open>EXCLUDE_KEYWORDS\<close> and \<^verbatim>\<open>TEXT_FILTER_CONFIG.NOISE_KEYWORDS\<close>, as UTF-16 code units.\<close>

fun EXCLUDE_KEYWORDS :: "ExcludeOption \<Rightarrow> jsstring list" where
  "EXCLUDE_KEYWORDS Used =
     [[0xC911, 0xACE0],
      [0xB9AC, 0xD37C],
      [0xB9AC, 0xD37C, 0xBE44, 0xC2DC],
      [0xBC18, 0xD488],
      [0xC804, 0xC2DC],
      [0xB9AC, 0xB274, 0xC5BC],
      [0xD14C, 0xC2A4, 0xD2B8],
      [0xC624, 0xD508, 0xBC15, 0xC2A4],
      [0xB9E4, 0xC785]]"
| "EXCLUDE_KEYWORDS Rental =
     [[0xB80C, 0xD0C8],
      [0xB300, 0xC5EC],
      [0xC784, 0xB300],
      [0xB80C, 0xD2B8],
      [0xB300, 0xCC28],
      [0xB9AC, 0xC2A4]]"
| "EXCLUDE_KEYWORDS Cbshop =
     [[0xD574, 0xC678, 0xC9C1, 0xAD6C],
      [0xC9C1, 0xAD6C],
      [0xAD6C, 0xB9E4, 0xB300, 0xD589],
      [0xBCD1, 0xD589, 0xC218, 0xC785],
      [0xD574, 0xC678, 0xBC30, 0xC1A1],
      [0xC5ED, 0xC9C1, 0xAD6C]]"

definition NOISE_KEYWORDS :: "jsstring list" where
  "NOISE_KEYWORDS = [[0xACAC, 0xC801], [0xC0C1, 0xB2F4, 0xAD8C]]"

definition TOP_N :: int where
  "TOP_N = 10"

definition MAX_ITEMS_PER_GROUP :: nat where
  "MAX_ITEMS_PER_GROUP = 20"

section \<open>Text utilities (utils/text.ts)\<close>

text \<open>
  \<^verbatim>\<open>toLowerCase\<close> is the runtime's Unicode case mapping. The functions that use it take it as
  the parameter \<open>lc\<close>, so every theorem below holds for whatever mapping the runtime applies.
\<close>

definition containsAnyKeyword :: "(jsstring \<Rightarrow> jsstring) \<Rightarrow> jsstring \<Rightarrow> jsstring list \<Rightarrow> bool" where
  "containsAnyKeyword lc txt keywords =
     (let lowerText = lc txt
      in list_ex (\<lambda>keyword. str_includes lowerText (lc keyword)) keywords)"

text \<open>The ASCII part of the case mapping, used where a theorem is evaluated on concrete data.\<close>

definition asciiLower :: "jsstring \<Rightarrow> jsstring" where
  "asciiLower s = map (\<lambda>c. if 0x41 \<le> c \<and> c \<le> 0x5A then c + 0x20 else c) s"

section \<open>Filtering, deduplication and sorting (domain/filtering.ts)\<close>

definition transformRawItem :: "NaverShopRawItem \<Rightarrow> Item" where
  "transformRawItem raw =
     \<lparr> Item.title = NaverShopRawItem.title raw,
       Item.titleText = stripHtmlTags (NaverShopRawItem.title raw),
       Item.lprice = safeParseInt (NaverShopRawItem.lprice raw) 0,
       Item.hprice = safeParseInt (NaverShopRawItem.hprice raw) 0,
       Item.mallName = NaverShopRawItem.mallName raw,
       Item.link = NaverShopRawItem.link raw,
       Item.image = (if NaverShopRawItem.image raw = [] then None else Some (NaverShopRawItem.image raw)),
       Item.productId = NaverShopRawItem.productId raw,
       Item.productType = NaverShopRawItem.productType raw,
       Item.brand = (if NaverShopRawItem.brand raw = [] then None else Some (NaverShopRawItem.brand raw)),
       Item.maker = (if NaverShopRawItem.maker raw = [] then None else Some (NaverShopRawItem.maker raw)),
       Item.category1 =
         (if NaverShopRawItem.category1 raw = [] then None else Some (NaverShopRawItem.category1 raw)),
       Item.category2 =
         (if NaverShopRawItem.category2 raw = [] then None else Some (NaverShopRawItem.category2 raw)),
       Item.category3 =
         (if NaverShopRawItem.category3 raw = [] then None else Some (NaverShopRawItem.category3 raw)),
       Item.category4 =
         (if NaverShopRawItem.category4 raw = [] then None else Some (NaverShopRawItem.category4 raw)) \<rparr>"

definition hasNoiseKeyword :: "(jsstring \<Rightarrow> jsstring) \<Rightarrow> jsstring \<Rightarrow> bool" where
  "hasNoiseKeyword lc titleTxt = containsAnyKeyword lc titleTxt NOISE_KEYWORDS"

fun hasExcludeKeyword :: "(jsstring \<Rightarrow> jsstring) \<Rightarrow> jsstring \<Rightarrow> ExcludeOption list \<Rightarrow> bool" where
  "hasExcludeKeyword lc titleTxt [] = False"
| "hasExcludeKeyword lc titleTxt (option # rest) =
     (if containsAnyKeyword lc titleTxt (EXCLUDE_KEYWORDS option) then True
      else hasExcludeKeyword lc titleTxt rest)"

definition matchesPriceFilter :: "Item \<Rightarrow> int option \<Rightarrow> int option \<Rightarrow> bool" where
  "matchesPriceFilter item minP maxP =
     (if Item.lprice item \<le> 0 then False
      else if (case minP of None \<Rightarrow> False | Some m \<Rightarrow> Item.lprice item < m) then False
      else if (case maxP of None \<Rightarrow> False | Some m \<Rightarrow> Item.lprice item > m) then False
      else True)"

definition matchesFilters ::
  "(jsstring \<Rightarrow> jsstring) \<Rightarrow> Item \<Rightarrow> int option \<Rightarrow> int option \<Rightarrow> ExcludeOption list option \<Rightarrow> bool \<Rightarrow> bool" where
  "matchesFilters lc item minP maxP excludeOptions noise =
     (if \<not> matchesPriceFilter item minP maxP then False
      else if (case excludeOptions of None \<Rightarrow> False
               | Some opts \<Rightarrow> length opts > 0 \<and> hasExcludeKeyword lc (Item.titleText item) opts)
           then False
      else if noise \<and> hasNoiseKeyword lc (Item.titleText item) then False
      else True)"

text \<open>
  \<^verbatim>\<open>deduplicateByLink\<close>: the \<^verbatim>\<open>seen\<close> set is threaded through the filter callback; the
  first item of each link stays.
\<close>

fun dedupSeen :: "jsstring set \<Rightarrow> Item list \<Rightarrow> Item list" where
  "dedupSeen seen [] = []"
| "dedupSeen seen (item # rest) =
     (if Item.link item \<in> seen then dedupSeen seen rest
      else item # dedupSeen (insert (Item.link item) seen) rest)"

definition deduplicateByLink :: "Item list \<Rightarrow> Item list" where
  "deduplicateByLink its = dedupSeen {} its"

text \<open>
  \<^verbatim>\<open>[...items].sort((a, b) => a.lprice - b.lprice)\<close>: \<^verbatim>\<open>Array.prototype.sort\<close> is stable,
  as is the insertion sort \<^const>\<open>sort_key\<close>.
\<close>

definition sortByPriceAsc :: "Item list \<Rightarrow> Item list" where
  "sortByPriceAsc its = sort_key Item.lprice its"

definition applyFiltersAndProcess ::
  "(jsstring \<Rightarrow> jsstring) \<Rightarrow> Item list \<Rightarrow> int option \<Rightarrow> int option \<Rightarrow> ExcludeOption list option \<Rightarrow> bool \<Rightarrow> Item list" where
  "applyFiltersAndProcess lc its minP maxP excludeOptions noise =
     (let filtered = filter (\<lambda>item. matchesFilters lc item minP maxP excludeOptions noise) its;
          deduplicated = deduplicateByLink filtered
      in sortByPriceAsc deduplicated)"

definition countExcludedByKeywords ::
  "(jsstring \<Rightarrow> jsstring) \<Rightarrow> Item list \<Rightarrow> int option \<Rightarrow> int option \<Rightarrow> ExcludeOption list option \<Rightarrow> nat" where
  "countExcludedByKeywords lc its minP maxP excludeOptions =
     (case excludeOptions of
        None \<Rightarrow> 0
      | Some opts \<Rightarrow>
          if length opts = 0 then 0
          else foldl (\<lambda>count item.
                       if matchesPriceFilter item minP maxP
                       then (if hasExcludeKeyword lc (Item.titleText item) opts then count + 1 else count)
                       else count) 0 its)"

definition filterAndSortItems ::
  "(jsstring \<Rightarrow> jsstring) \<Rightarrow> NaverShopRawItem list \<Rightarrow> SearchFilters \<Rightarrow> FilteringResult" where
  "filterAndSortItems lc rawItems filters =
     (let its = map transformRawItem rawItems;
          minP = SearchFilters.minPrice filters;
          maxP = SearchFilters.maxPrice filters;
          excludeOptions = SearchFilters.exclude filters;
          result0 = applyFiltersAndProcess lc its minP maxP excludeOptions
                      (SearchFilters.filterNoise filters);
          relax = (length result0 = 0 \<and> SearchFilters.filterNoise filters);
          currentFilterNoise = (if relax then False else SearchFilters.filterNoise filters);
          relaxation = (if relax then [DropFilterNoise] else []);
          result = (if relax
                    then applyFiltersAndProcess lc its minP maxP excludeOptions currentFilterNoise
                    else result0);
          excludedCount = countExcludedByKeywords lc its minP maxP excludeOptions;
          applied =
            \<lparr> AppliedFilters.minPrice = minP,
              AppliedFilters.maxPrice = maxP,
              AppliedFilters.filterNoise = currentFilterNoise,
              AppliedFilters.exclude = excludeOptions,
              AppliedFilters.excludeKeywordsEnabled =
                (case excludeOptions of None \<Rightarrow> False | Some opts \<Rightarrow> length opts > 0),
              AppliedFilters.pages = SearchFilters.pages filters \<rparr>
      in \<lparr> FilteringResult.items = result,
           FilteringResult.filterRelaxed = (length relaxation > 0),
           FilteringResult.appliedRelaxation = relaxation,
           FilteringResult.appliedFilters = applied,
           FilteringResult.excludedByKeywordsCount = excludedCount \<rparr>)"

section \<open>Price groups and the price band (domain/filtering.ts)\<close>

text \<open>
  A number that may be \<^verbatim>\<open>NaN\<close>: the mean and the median of \<^verbatim>\<open>calculatePriceBand\<close> are
  \<^verbatim>\<open>NaN\<close> when every group has count 0 (\<^verbatim>\<open>0 / 0\<close>, and \<^verbatim>\<open>undefined + undefined\<close>).
\<close>

datatype jsnumber = NaN | Num int

record PriceGroup =
  price :: int
  count :: nat
  items :: "Item list"
  representative :: Item

record PriceBandSummary =
  minPrice :: int
  maxPrice :: int
  avgPrice :: jsnumber
  medianPrice :: jsnumber

text \<open>
  \<^verbatim>\<open>Map<number, Item[]>\<close> as an association list in insertion order: \<^verbatim>\<open>set\<close> replaces the
  value of a key that is present and appends a new key at the end.
\<close>

fun mapSet :: "(int \<times> Item list) list \<Rightarrow> int \<Rightarrow> Item list \<Rightarrow> (int \<times> Item list) list" where
  "mapSet [] k v = [(k, v)]"
| "mapSet ((k', v') # m) k v = (if k' = k then (k, v) # m else (k', v') # mapSet m k v)"

definition groupStep :: "(int \<times> Item list) list \<Rightarrow> Item \<Rightarrow> (int \<times> Item list) list" where
  "groupStep groupMap item =
     (let existing = (case map_of groupMap (Item.lprice item) of None \<Rightarrow> [] | Some l \<Rightarrow> l)
      in if length existing < MAX_ITEMS_PER_GROUP
         then mapSet groupMap (Item.lprice item) (existing @ [item])
         else groupMap)"

text \<open>
  \<^verbatim>\<open>slice(0, end)\<close>: a negative \<^verbatim>\<open>end\<close> counts from the end of the array.
\<close>

definition sliceFromStart :: "'a list \<Rightarrow> int \<Rightarrow> 'a list" where
  "sliceFromStart xs e = (if e < 0 then take (nat (int (length xs) + e)) xs else take (nat e) xs)"

definition groupByPrice :: "Item list \<Rightarrow> int \<Rightarrow> PriceGroup list" where
  "groupByPrice its maxGroups =
     (if length its = 0 then []
      else let groupMap = foldl groupStep [] its
           in map (\<lambda>(p, groupItems).
                    \<lparr> PriceGroup.price = p,
                      PriceGroup.count = length groupItems,
                      PriceGroup.items = groupItems,
                      PriceGroup.representative = hd groupItems \<rparr>)
                (sliceFromStart (sort_key fst groupMap) maxGroups))"

text \<open>
  \<^verbatim>\<open>Math.round\<close> rounds halves upwards: for \<open>b > 0\<close>, \<^verbatim>\<open>Math.round(a / b)\<close> is
  \<open>(2 * a + b) div (2 * b)\<close>, and \<^verbatim>\<open>Math.round(s / 2)\<close> is \<open>(s + 1) div 2\<close>.
\<close>

definition calculatePriceBand :: "PriceGroup list \<Rightarrow> PriceBandSummary option" where
  "calculatePriceBand groups =
     (if length groups = 0 then None
      else let prices = map PriceGroup.price groups;
               totalItems = foldl (\<lambda>s g. s + int (PriceGroup.count g)) 0 groups;
               weightedSum = foldl (\<lambda>s g. s + PriceGroup.price g * int (PriceGroup.count g)) 0 groups;
               avg = (if totalItems = 0 then NaN
                      else Num ((2 * weightedSum + totalItems) div (2 * totalItems)));
               allPrices = sort_key (\<lambda>p. p) (concat (map (\<lambda>g. replicate (PriceGroup.count g) (PriceGroup.price g)) groups));
               mid = length allPrices div 2;
               median = (if length allPrices mod 2 = 0
                         then (if length allPrices = 0 then NaN
                               else Num ((allPrices ! (mid - 1) + allPrices ! mid + 1) div 2))
                         else Num (allPrices ! mid))
           in Some \<lparr> PriceBandSummary.minPrice = Min (set prices),
                     PriceBandSummary.maxPrice = Max (set prices),
                     PriceBandSummary.avgPrice = avg,
                     PriceBandSummary.medianPrice = median \<rparr>)"

definition extractTopResults :: "Item list \<Rightarrow> Item option \<times> PriceGroup list \<times> PriceBandSummary option" where
  "extractTopResults its =
     (let top1 = (if length its > 0 then Some (its ! 0) else None);
          top10Groups = groupByPrice its TOP_N;
          priceBand = calculatePriceBand top10Groups
      in (top1, top10Groups, priceBand))"

section \<open>Client-side outlier trim (app/page.tsx)\<close>

text \<open>
  \<^verbatim>\<open>Math.floor(n * 0.25)\<close> is \<open>n div 4\<close> and \<^verbatim>\<open>Math.floor(n * 0.75)\<close> is \<open>3 * n div 4\<close>;
  both indices are within the array when \<open>n \<ge> 5\<close>.
\<close>

definition filterOutliers :: "Item list \<Rightarrow> Item list" where
  "filterOutliers its =
     (if length its < 5 then its
      else let prices = sort_key (\<lambda>p. p) (map Item.lprice its);
               n = length prices;
               q1 = prices ! (n div 4);
               q3 = prices ! ((3 * n) div 4);
               iqr = q3 - q1;
               lowerBound = max 0 (q1 - 2 * iqr);
               upperBound = q3 + 2 * iqr
           in filter (\<lambda>item. Item.lprice item \<ge> lowerBound \<and> Item.lprice item \<le> upperBound) its)"

text \<open>The invariant of the group map while \<^verbatim>\<open>groupByPrice\<close> scans the items.\<close>

definition groupInv :: "(int \<times> Item list) list \<Rightarrow> bool" where
  "groupInv m \<longleftrightarrow> distinct (map fst m) \<and>
     (\<forall>kv \<in> set m. snd kv \<noteq> [] \<and> length (snd kv) \<le> MAX_ITEMS_PER_GROUP \<and>
        (\<forall>x \<in> set (snd kv). Item.lprice x = fst kv))"

section \<open>JSON values and the response schema (types/naver.ts)\<close>

text \<open>
  The value that \<^verbatim>\<open>response.json()\<close> resolves to. An object is the list of its own
  properties; numbers are kept as integers, which is what the upstream's \<^verbatim>\<open>total\<close> is.
\<close>

datatype jsvalue =
  JNull | JBool bool | JNum int | JStr jsstring | JArr "jsvalue list" | JObj "(jsstring \<times> jsvalue) list"

text \<open>
  \<^verbatim>\<open>data.key\<close> for a value that is not \<^verbatim>\<open>null\<close>: \<open>None\<close> is \<^verbatim>\<open>undefined\<close>. Only the keys
  of the schema are ever read, and arrays, strings, numbers and booleans have none of them.
\<close>

definition property :: "jsvalue \<Rightarrow> jsstring \<Rightarrow> jsvalue option" where
  "property v k = (case v of JObj props \<Rightarrow> map_of props k | _ \<Rightarrow> None)"

text \<open>
  The zod schemas, each as the function from the input value to the parsed value, \<open>None\<close> when
  \<^verbatim>\<open>safeParse\<close> fails: \<^verbatim>\<open>z.string()\<close>, \<^verbatim>\<open>z.string().optional().default(d)\<close>, the
  \<^verbatim>\<open>z.preprocess\<close> of \<^verbatim>\<open>lprice\<close>, \<^verbatim>\<open>NaverShopItemSchema\<close> and
  \<^verbatim>\<open>NaverShopApiResponseSchema\<close>. A \<^verbatim>\<open>z.object\<close> accepts objects only (not \<^verbatim>\<open>null\<close>, not
  arrays) and drops the keys it does not name.
\<close>

definition z_string :: "jsvalue option \<Rightarrow> jsstring option" where
  "z_string v = (case v of Some (JStr s) \<Rightarrow> Some s | _ \<Rightarrow> None)"

definition z_string_optional_default :: "jsstring \<Rightarrow> jsvalue option \<Rightarrow> jsstring option" where
  "z_string_optional_default d v = (case v of None \<Rightarrow> Some d | _ \<Rightarrow> z_string v)"

definition lprice_preprocess :: "jsvalue option \<Rightarrow> jsvalue option" where
  "lprice_preprocess v =
     (if v = Some (JStr []) \<or> v = Some JNull \<or> v = None then Some (JStr (ascii ''0'')) else v)"

definition NaverShopItemSchema :: "jsvalue \<Rightarrow> NaverShopRawItem option" where
  "NaverShopItemSchema v =
     (case v of
        JObj props \<Rightarrow>
          do {
            title' \<leftarrow> z_string (property v (ascii ''title''));
            link' \<leftarrow> z_string (property v (ascii ''link''));
            image' \<leftarrow> z_string_optional_default [] (property v (ascii ''image''));
            lprice' \<leftarrow> z_string (lprice_preprocess (property v (ascii ''lprice'')));
            hprice' \<leftarrow> z_string_optional_default (ascii ''0'') (property v (ascii ''hprice''));
            mallName' \<leftarrow> z_string_optional_default [] (property v (ascii ''mallName''));
            productId' \<leftarrow> z_string_optional_default [] (property v (ascii ''productId''));
            productType' \<leftarrow> z_string_optional_default [] (property v (ascii ''productType''));
            brand' \<leftarrow> z_string_optional_default [] (property v (ascii ''brand''));
            maker' \<leftarrow> z_string_optional_default [] (property v (ascii ''maker''));
            category1' \<leftarrow> z_string_optional_default [] (property v (ascii ''category1''));
            category2' \<leftarrow> z_string_optional_default [] (property v (ascii ''category2''));
            category3' \<leftarrow> z_string_optional_default [] (property v (ascii ''category3''));
            category4' \<leftarrow> z_string_optional_default [] (property v (ascii ''category4''));
            Some \<lparr> NaverShopRawItem.title = title', NaverShopRawItem.link = link',
                   NaverShopRawItem.image = image', NaverShopRawItem.lprice = lprice',
                   NaverShopRawItem.hprice = hprice', NaverShopRawItem.mallName = mallName',
                   NaverShopRawItem.productId = productId', NaverShopRawItem.productType = productType',
                   NaverShopRawItem.brand = brand', NaverShopRawItem.maker = maker',
                   NaverShopRawItem.category1 = category1', NaverShopRawItem.category2 = category2',
                   NaverShopRawItem.category3 = category3', NaverShopRawItem.category4 = category4' \<rparr>
          }
      | _ \<Rightarrow> None)"

definition NaverShopApiResponseSchema :: "jsvalue \<Rightarrow> (NaverShopRawItem list \<times> int) option" where
  "NaverShopApiResponseSchema v =
     (case v of
        JObj props \<Rightarrow>
          do {
            items' \<leftarrow> (case property v (ascii ''items'') of
                         None \<Rightarrow> Some []
                       | Some (JArr elems) \<Rightarrow> those (map NaverShopItemSchema elems)
                       | _ \<Rightarrow> None);
            total' \<leftarrow> (case property v (ascii ''total'') of
                         None \<Rightarrow> Some 0
                       | Some (JNum n) \<Rightarrow> Some n
                       | _ \<Rightarrow> None);
            Some (items', total')
          }
      | _ \<Rightarrow> None)"

section \<open>Errors (utils/errors.ts)\<close>

text \<open>
  What a rejected promise or a failing expression throws, as far as the \<^verbatim>\<open>catch\<close> block of
  \<^verbatim>\<open>fetchSinglePage\<close> tells it apart: an error named \<^verbatim>\<open>AbortError\<close>, or another one. The
  two error classes the client throws carry their original error; the messages are named by
  what they say (credentials not configured; response error with the status; call failed).
\<close>

datatype thrown = AbortError | TypeError | OtherError

datatype error_message = CredentialsNotConfigured | ResponseError nat | CallFailed

datatype error_detail =
  NoDetail | HttpFailure nat jsstring jsstring | Caught thrown

datatype api_error =
  NaverApiError error_message error_detail | TimeoutError error_detail

section \<open>The shopping API client (lib/naverShopClient.ts)\<close>

definition DISPLAY_PER_PAGE :: int where
  "DISPLAY_PER_PAGE = 100"

definition MAX_PAGES :: int where
  "MAX_PAGES = 10"

definition DEFAULT_PAGES :: int where
  "DEFAULT_PAGES = 3"

definition MAX_START_VALUE :: int where
  "MAX_START_VALUE = 1000"

text \<open>
  \<^verbatim>\<open>buildSearchParams\<close> leaves the \<^verbatim>\<open>exclude\<close> parameter out of the query string when the
  list is empty; the query string is kept as the record of its parameters.
\<close>

record FetchParams =
  query :: jsstring
  display :: int
  start :: int
  sort :: SortOption
  exclude :: "ExcludeOption list"

record UrlSearchParams =
  query :: jsstring
  display :: int
  start :: int
  sort :: SortOption
  exclude :: "ExcludeOption list option"

text \<open>
  What the program reads of a response: the status (\<^verbatim>\<open>ok\<close> is a status of 200 to 299), the
  status text, the body as \<^verbatim>\<open>response.text()\<close> gives it (\<open>None\<close> when reading it rejects:
  the program then takes the empty string) and as \<^verbatim>\<open>response.json()\<close> gives it (\<open>Inl\<close> when
  it rejects). \<^verbatim>\<open>fetch\<close> itself rejects (\<open>Rejected\<close>) or resolves to a response; it rejects
  with \<open>AbortError\<close> when the timer of \<^verbatim>\<open>TIMEOUT_MS\<close> aborts the request.
\<close>

record HttpResponse =
  status :: nat
  statusText :: jsstring
  bodyText :: "jsstring option"
  bodyJson :: "thrown + jsvalue"

datatype fetch_outcome = Rejected thrown | Resolved HttpResponse

text \<open>
  Everything outside the program: the case mapping of strings, the two credentials of the
  environment, and the network. \<open>'w\<close> is the state of the world; \<open>fetch\<close> answers a request in
  a world and leaves a new one, so that two calls may be answered differently. On the
  best-effort path \<^verbatim>\<open>fetchSinglePage\<close> returns \<^verbatim>\<open>data.items\<close> and \<^verbatim>\<open>data.total\<close> as they
  are, unvalidated, under the declared types; \<open>uncheckedItems\<close> and \<open>uncheckedTotal\<close> stand for
  that unchecked reading of a value that is present.
\<close>

record 'w runtime =
  toLowerCase :: "jsstring \<Rightarrow> jsstring"
  NAVER_CLIENT_ID :: "jsstring option"
  NAVER_CLIENT_SECRET :: "jsstring option"
  fetch :: "'w \<Rightarrow> UrlSearchParams \<Rightarrow> jsstring \<times> jsstring \<Rightarrow> fetch_outcome \<times> 'w"
  uncheckedItems :: "jsvalue \<Rightarrow> NaverShopRawItem list"
  uncheckedTotal :: "jsvalue \<Rightarrow> int"

record PageResult =
  items :: "NaverShopRawItem list"
  total :: int

definition buildSearchParams :: "FetchParams \<Rightarrow> UrlSearchParams" where
  "buildSearchParams params =
     \<lparr> UrlSearchParams.query = FetchParams.query params,
       UrlSearchParams.display = FetchParams.display params,
       UrlSearchParams.start = FetchParams.start params,
       UrlSearchParams.sort = FetchParams.sort params,
       UrlSearchParams.exclude =
         (if length (FetchParams.exclude params) > 0 then Some (FetchParams.exclude params) else None) \<rparr>"

text \<open>
  \<^verbatim>\<open>buildHeaders\<close> throws when a credential is not set or is the empty string.
\<close>

definition buildHeaders :: "'w runtime \<Rightarrow> api_error + jsstring \<times> jsstring" where
  "buildHeaders R =
     (case (NAVER_CLIENT_ID R, NAVER_CLIENT_SECRET R) of
        (Some clientId, Some clientSecret) \<Rightarrow>
          if clientId = [] \<or> clientSecret = []
          then Inl (NaverApiError CredentialsNotConfigured NoDetail)
          else Inr (clientId, clientSecret)
      | _ \<Rightarrow> Inl (NaverApiError CredentialsNotConfigured NoDetail))"

definition ok :: "HttpResponse \<Rightarrow> bool" where
  "ok response \<longleftrightarrow> 200 \<le> status response \<and> status response \<le> 299"

text \<open>
  The \<^verbatim>\<open>catch\<close> block for an error that is not a \<open>NaverApiError\<close> already: an
  \<^verbatim>\<open>AbortError\<close> becomes a \<open>TimeoutError\<close>, anything else the general \<open>NaverApiError\<close>.
\<close>

definition catchError :: "thrown \<Rightarrow> api_error" where
  "catchError e = (if e = AbortError then TimeoutError (Caught e)
                   else NaverApiError CallFailed (Caught e))"

text \<open>
  \<^verbatim>\<open>{ items: data.items ?? [], total: data.total ?? 0 }\<close>: reading a property of
  \<^verbatim>\<open>null\<close> throws a \<^verbatim>\<open>TypeError\<close>; \<^verbatim>\<open>??\<close> takes the default for \<^verbatim>\<open>undefined\<close> and for
  \<^verbatim>\<open>null\<close>.
\<close>

definition bestEffort :: "'w runtime \<Rightarrow> jsvalue \<Rightarrow> thrown + PageResult" where
  "bestEffort R data =
     (if data = JNull then Inl TypeError
      else Inr \<lparr> PageResult.items =
                   (case property data (ascii ''items'') of
                      None \<Rightarrow> [] | Some JNull \<Rightarrow> [] | Some v \<Rightarrow> uncheckedItems R v),
                 PageResult.total =
                   (case property data (ascii ''total'') of
                      None \<Rightarrow> 0 | Some JNull \<Rightarrow> 0 | Some v \<Rightarrow> uncheckedTotal R v) \<rparr>)"

definition fetchSinglePage ::
  "'w runtime \<Rightarrow> 'w \<Rightarrow> jsstring \<Rightarrow> int \<Rightarrow> SortOption \<Rightarrow> ExcludeOption list \<Rightarrow> (api_error + PageResult) \<times> 'w" where
  "fetchSinglePage R w q startValue srt excl =
     (let params = buildSearchParams
            \<lparr> FetchParams.query = q, FetchParams.display = DISPLAY_PER_PAGE,
              FetchParams.start = startValue, FetchParams.sort = srt, FetchParams.exclude = excl \<rparr>
      in case buildHeaders R of
           Inl e \<Rightarrow> (Inl e, w)
         | Inr headers \<Rightarrow>
             (case fetch R w params headers of
                (Rejected e, w') \<Rightarrow> (Inl (catchError e), w')
              | (Resolved response, w') \<Rightarrow>
                  if \<not> ok response
                  then (Inl (NaverApiError (ResponseError (status response))
                               (HttpFailure (status response) (statusText response)
                                  (case bodyText response of None \<Rightarrow> [] | Some b \<Rightarrow> b))), w')
                  else (case bodyJson response of
                          Inl e \<Rightarrow> (Inl (catchError e), w')
                        | Inr data \<Rightarrow>
                            (case NaverShopApiResponseSchema data of
                               Some (its, tot) \<Rightarrow>
                                 (Inr \<lparr> PageResult.items = its, PageResult.total = tot \<rparr>, w')
                             | None \<Rightarrow>
                                 (case bestEffort R data of
                                    Inl e \<Rightarrow> (Inl (catchError e), w')
                                  | Inr page \<Rightarrow> (Inr page, w'))))))"

text \<open>The loop of \<^verbatim>\<open>calculateStartValues\<close>, from the index \<open>i\<close> on.\<close>

function startValuesFrom :: "int \<Rightarrow> int \<Rightarrow> int list" where
  "startValuesFrom i effectivePages =
     (if i < effectivePages
      then (let startValue = 1 + i * DISPLAY_PER_PAGE
            in if startValue > MAX_START_VALUE then []
               else startValue # startValuesFrom (i + 1) effectivePages)
      else [])"
  by pat_completeness auto
termination
  by (relation "measure (\<lambda>(i, effectivePages). nat (effectivePages - i))") auto

declare startValuesFrom.simps [simp del]

definition calculateStartValues :: "int \<Rightarrow> int list" where
  "calculateStartValues n = startValuesFrom 0 (min n MAX_PAGES)"

text \<open>
  The loop of \<^verbatim>\<open>fetchAllPages\<close> over the remaining start values, with the items collected
  and the total remembered so far; the first failing page ends it with that page's error.
\<close>

fun fetchPagesFrom ::
  "'w runtime \<Rightarrow> 'w \<Rightarrow> jsstring \<Rightarrow> SortOption \<Rightarrow> ExcludeOption list \<Rightarrow> int list \<Rightarrow>
     NaverShopRawItem list \<Rightarrow> int \<Rightarrow> (api_error + PageResult) \<times> 'w" where
  "fetchPagesFrom R w q srt excl [] allItems totalFromApi =
     (Inr \<lparr> PageResult.items = allItems, PageResult.total = totalFromApi \<rparr>, w)"
| "fetchPagesFrom R w q srt excl (startValue # rest) allItems totalFromApi =
     (case fetchSinglePage R w q startValue srt excl of
        (Inl e, w') \<Rightarrow> (Inl e, w')
      | (Inr page, w') \<Rightarrow>
          fetchPagesFrom R w' q srt excl rest (allItems @ PageResult.items page) (PageResult.total page))"

definition fetchAllPages ::
  "'w runtime \<Rightarrow> 'w \<Rightarrow> jsstring \<Rightarrow> int \<Rightarrow> SortOption \<Rightarrow> ExcludeOption list \<Rightarrow> (api_error + PageResult) \<times> 'w" where
  "fetchAllPages R w q n srt excl =
     fetchPagesFrom R w q srt excl (calculateStartValues n) [] 0"

section \<open>The search service (services/getLowestPrice.ts)\<close>

record ValidatedSearchRequest =
  query :: jsstring
  minPrice :: "int option"
  maxPrice :: "int option"
  sort :: "SortOption option"
  exclude :: "ExcludeOption list option"
  pages :: "int option"
  filterNoise :: bool

record LowestPriceResponse =
  query :: jsstring
  filters :: SearchFilters
  top1 :: "Item option"
  top10Groups :: "PriceGroup list"
  priceBand :: "PriceBandSummary option"
  totalCandidates :: nat
  totalFromApi :: int
  filterRelaxed :: bool
  appliedRelaxation :: "RelaxationStep list"
  appliedFilters :: AppliedFilters
  excludedByKeywordsCount :: nat

definition DEFAULT_EXCLUDE :: "ExcludeOption list" where
  "DEFAULT_EXCLUDE = [Used, Rental, Cbshop]"

definition normalizeFilters :: "ValidatedSearchRequest \<Rightarrow> SearchFilters" where
  "normalizeFilters request =
     (let n = min (case ValidatedSearchRequest.pages request of None \<Rightarrow> DEFAULT_PAGES | Some k \<Rightarrow> k)
                MAX_PAGES;
          minP0 = ValidatedSearchRequest.minPrice request;
          maxP0 = ValidatedSearchRequest.maxPrice request;
          minP1 = (case minP0 of None \<Rightarrow> None | Some m \<Rightarrow> if m < 0 then None else Some m);
          maxP1 = (case maxP0 of None \<Rightarrow> None | Some m \<Rightarrow> if m < 0 then None else Some m);
          swap = (case (minP1, maxP1) of (Some lo, Some hi) \<Rightarrow> lo > hi | _ \<Rightarrow> False)
      in \<lparr> SearchFilters.minPrice = (if swap then maxP1 else minP1),
           SearchFilters.maxPrice = (if swap then minP1 else maxP1),
           SearchFilters.sort = (case ValidatedSearchRequest.sort request of None \<Rightarrow> Sim | Some s \<Rightarrow> s),
           SearchFilters.exclude =
             Some (case ValidatedSearchRequest.exclude request of None \<Rightarrow> DEFAULT_EXCLUDE | Some e \<Rightarrow> e),
           SearchFilters.pages = n,
           SearchFilters.filterNoise = ValidatedSearchRequest.filterNoise request \<rparr>)"

text \<open>
  \<^verbatim>\<open>getLowestPrice\<close> is written as its three blocks: the initial fetch and filtering, the
  round that drops the exclusion, the round that reduces the pages. Each block takes the state
  the previous one left and may fail with the error of its fetch. The state is the local
  variables of \<^verbatim>\<open>getLowestPrice\<close> that the rounds read and assign.
\<close>

record SearchState =
  rawItems :: "NaverShopRawItem list"
  totalFromApi :: int
  filterResult :: FilteringResult
  currentExclude :: "ExcludeOption list option"
  currentPages :: int
  appliedRelaxation :: "RelaxationStep list"

definition orEmpty :: "ExcludeOption list option \<Rightarrow> ExcludeOption list" where
  "orEmpty e = (case e of None \<Rightarrow> [] | Some l \<Rightarrow> l)"

definition initialRound ::
  "'w runtime \<Rightarrow> 'w \<Rightarrow> jsstring \<Rightarrow> SearchFilters \<Rightarrow> (api_error + SearchState) \<times> 'w" where
  "initialRound R w q fs =
     (let minP = SearchFilters.minPrice fs;
          maxP = SearchFilters.maxPrice fs;
          curExclude = SearchFilters.exclude fs;
          curPages = SearchFilters.pages fs
      in case fetchAllPages R w q curPages Asc (orEmpty curExclude) of
           (Inl e, w') \<Rightarrow> (Inl e, w')
         | (Inr page, w') \<Rightarrow>
             (Inr \<lparr> SearchState.rawItems = PageResult.items page,
                    SearchState.totalFromApi = PageResult.total page,
                    SearchState.filterResult =
                      filterAndSortItems (toLowerCase R) (PageResult.items page)
                        (fs\<lparr> SearchFilters.minPrice := minP, SearchFilters.maxPrice := maxP,
                            SearchFilters.exclude := curExclude, SearchFilters.pages := curPages \<rparr>),
                    SearchState.currentExclude = curExclude,
                    SearchState.currentPages = curPages,
                    SearchState.appliedRelaxation = [] \<rparr>, w'))"

definition dropExcludeRound ::
  "'w runtime \<Rightarrow> 'w \<Rightarrow> jsstring \<Rightarrow> SearchFilters \<Rightarrow> SearchState \<Rightarrow> (api_error + SearchState) \<times> 'w" where
  "dropExcludeRound R w q fs st =
     (if length (FilteringResult.items (SearchState.filterResult st)) = 0 \<and>
         (case SearchState.currentExclude st of None \<Rightarrow> False | Some e \<Rightarrow> length e > 0)
      then (case fetchAllPages R w q (SearchState.currentPages st) Asc [] of
              (Inl e, w') \<Rightarrow> (Inl e, w')
            | (Inr page, w') \<Rightarrow>
                (Inr (st\<lparr> SearchState.currentExclude := None,
                          SearchState.appliedRelaxation := SearchState.appliedRelaxation st @ [DropExclude],
                          SearchState.rawItems := PageResult.items page,
                          SearchState.totalFromApi := PageResult.total page,
                          SearchState.filterResult :=
                            filterAndSortItems (toLowerCase R) (PageResult.items page)
                              (fs\<lparr> SearchFilters.minPrice := SearchFilters.minPrice fs,
                                  SearchFilters.maxPrice := SearchFilters.maxPrice fs,
                                  SearchFilters.filterNoise :=
                                    AppliedFilters.filterNoise
                                      (FilteringResult.appliedFilters (SearchState.filterResult st)),
                                  SearchFilters.exclude := None,
                                  SearchFilters.pages := SearchState.currentPages st \<rparr>) \<rparr>), w'))
      else (Inr st, w))"

definition reducePagesRound ::
  "'w runtime \<Rightarrow> 'w \<Rightarrow> jsstring \<Rightarrow> SearchFilters \<Rightarrow> SearchState \<Rightarrow> (api_error + SearchState) \<times> 'w" where
  "reducePagesRound R w q fs st =
     (if length (FilteringResult.items (SearchState.filterResult st)) = 0 \<and>
         SearchState.currentPages st > 1
      then (case fetchAllPages R w q 1 Asc (orEmpty (SearchState.currentExclude st)) of
              (Inl e, w') \<Rightarrow> (Inl e, w')
            | (Inr page, w') \<Rightarrow>
                (Inr (st\<lparr> SearchState.currentPages := 1,
                          SearchState.appliedRelaxation := SearchState.appliedRelaxation st @ [ReducePages],
                          SearchState.rawItems := PageResult.items page,
                          SearchState.totalFromApi := PageResult.total page,
                          SearchState.filterResult :=
                            filterAndSortItems (toLowerCase R) (PageResult.items page)
                              (fs\<lparr> SearchFilters.minPrice := SearchFilters.minPrice fs,
                                  SearchFilters.maxPrice := SearchFilters.maxPrice fs,
                                  SearchFilters.filterNoise := False,
                                  SearchFilters.exclude := SearchState.currentExclude st,
                                  SearchFilters.pages := 1 \<rparr>) \<rparr>), w'))
      else (Inr st, w))"

definition buildResponse :: "jsstring \<Rightarrow> SearchFilters \<Rightarrow> SearchState \<Rightarrow> LowestPriceResponse" where
  "buildResponse q fs st =
     (let fr = SearchState.filterResult st;
          allRelaxation = FilteringResult.appliedRelaxation fr @ SearchState.appliedRelaxation st;
          finalAppliedFilters =
            \<lparr> AppliedFilters.minPrice = SearchFilters.minPrice fs,
              AppliedFilters.maxPrice = SearchFilters.maxPrice fs,
              AppliedFilters.filterNoise = AppliedFilters.filterNoise (FilteringResult.appliedFilters fr),
              AppliedFilters.exclude = SearchState.currentExclude st,
              AppliedFilters.excludeKeywordsEnabled =
                AppliedFilters.excludeKeywordsEnabled (FilteringResult.appliedFilters fr),
              AppliedFilters.pages = SearchState.currentPages st \<rparr>
      in case extractTopResults (FilteringResult.items fr) of
           (t1, groups, band) \<Rightarrow>
             \<lparr> LowestPriceResponse.query = q,
               LowestPriceResponse.filters = fs,
               LowestPriceResponse.top1 = t1,
               LowestPriceResponse.top10Groups = groups,
               LowestPriceResponse.priceBand = band,
               LowestPriceResponse.totalCandidates = length (FilteringResult.items fr),
               LowestPriceResponse.totalFromApi = SearchState.totalFromApi st,
               LowestPriceResponse.filterRelaxed = (length allRelaxation > 0),
               LowestPriceResponse.appliedRelaxation = allRelaxation,
               LowestPriceResponse.appliedFilters = finalAppliedFilters,
               LowestPriceResponse.excludedByKeywordsCount = FilteringResult.excludedByKeywordsCount fr \<rparr>)"

definition getLowestPrice ::
  "'w runtime \<Rightarrow> 'w \<Rightarrow> jsstring \<Rightarrow> SearchFilters \<Rightarrow> (api_error + LowestPriceResponse) \<times> 'w" where
  "getLowestPrice R w q fs =
     (case initialRound R w q fs of
        (Inl e, w0) \<Rightarrow> (Inl e, w0)
      | (Inr s0, w0) \<Rightarrow>
          (case dropExcludeRound R w0 q fs s0 of
             (Inl e, w1) \<Rightarrow> (Inl e, w1)
           | (Inr s1, w1) \<Rightarrow>
               (case reducePagesRound R w1 q fs s1 of
                  (Inl e, w2) \<Rightarrow> (Inl e, w2)
                | (Inr s2, w2) \<Rightarrow> (Inr (buildResponse q fs s2), w2))))"

text \<open>
  What it means for a relaxation round to have filtered with the original price bounds: the
  filtering result of the round is \<open>filterAndSortItems\<close> of the round's raw items under
  filters whose \<open>minPrice\<close> and \<open>maxPrice\<close> are those of the request.
\<close>

definition roundKeepsPriceBounds :: "'w runtime \<Rightarrow> SearchFilters \<Rightarrow> SearchState \<Rightarrow> bool" where
  "roundKeepsPriceBounds R fs st \<longleftrightarrow>
     (\<exists>f. SearchFilters.minPrice f = SearchFilters.minPrice fs \<and>
          SearchFilters.maxPrice f = SearchFilters.maxPrice fs \<and>
          SearchState.filterResult st =
            filterAndSortItems (toLowerCase R) (SearchState.rawItems st) f)"

text \<open>Every item held in the group map comes from the set \<open>S\<close>.\<close>

definition groupItemsWithin :: "Item set \<Rightarrow> (int \<times> Item list) list \<Rightarrow> bool" where
  "groupItemsWithin S m \<longleftrightarrow> (\<forall>kv \<in> set m. set (snd kv) \<subseteq> S)"

section \<open>Sample data\<close>

text \<open>Concrete items on which the theorems below are evaluated.\<close>

definition sampleItem :: "jsstring \<Rightarrow> int \<Rightarrow> jsstring \<Rightarrow> Item" where
  "sampleItem t p l =
     \<lparr> Item.title = t, Item.titleText = t, Item.lprice = p, Item.hprice = 0, Item.mallName = [],
       Item.link = l, Item.image = None, Item.productId = [], Item.productType = [],
       Item.brand = None, Item.maker = None, Item.category1 = None, Item.category2 = None,
       Item.category3 = None, Item.category4 = None \<rparr>"

definition sampleRaw :: "jsstring \<Rightarrow> jsstring \<Rightarrow> jsstring \<Rightarrow> NaverShopRawItem" where
  "sampleRaw t p l =
     \<lparr> NaverShopRawItem.title = t, NaverShopRawItem.link = l, NaverShopRawItem.image = [],
       NaverShopRawItem.lprice = p, NaverShopRawItem.hprice = ascii ''0'',
       NaverShopRawItem.mallName = [],
       NaverShopRawItem.productId = [], NaverShopRawItem.productType = [],
       NaverShopRawItem.brand = [], NaverShopRawItem.maker = [], NaverShopRawItem.category1 = [],
       NaverShopRawItem.category2 = [], NaverShopRawItem.category3 = [],
       NaverShopRawItem.category4 = [] \<rparr>"

definition sampleFilters :: "int option \<Rightarrow> int option \<Rightarrow> ExcludeOption list option \<Rightarrow> int \<Rightarrow> bool \<Rightarrow> SearchFilters" where
  "sampleFilters lo hi ex n noise =
     \<lparr> SearchFilters.minPrice = lo, SearchFilters.maxPrice = hi, SearchFilters.sort = Sim,
       SearchFilters.exclude = ex, SearchFilters.pages = n, SearchFilters.filterNoise = noise \<rparr>"

text \<open>A JSON item and page as the upstream API sends them, and a response of status 200.\<close>

definition jsonItem :: "jsstring \<Rightarrow> jsstring \<Rightarrow> jsstring \<Rightarrow> jsvalue" where
  "jsonItem t p l =
     JObj [(ascii ''title'', JStr t), (ascii ''link'', JStr l), (ascii ''lprice'', JStr p)]"

definition jsonPage :: "jsvalue list \<Rightarrow> int \<Rightarrow> jsvalue" where
  "jsonPage its tot = JObj [(ascii ''items'', JArr its), (ascii ''total'', JNum tot)]"

definition okResponse :: "jsvalue \<Rightarrow> fetch_outcome" where
  "okResponse data =
     Resolved \<lparr> status = 200, statusText = ascii ''OK'', bodyText = None, bodyJson = Inr data \<rparr>"

text \<open>
  A runtime whose world is the number of HTTP calls made so far; \<open>respond\<close> chooses the
  upstream's answer to a call.
\<close>

definition sampleRuntime :: "(nat \<Rightarrow> UrlSearchParams \<Rightarrow> fetch_outcome) \<Rightarrow> nat runtime" where
  "sampleRuntime respond =
     \<lparr> toLowerCase = asciiLower,
       NAVER_CLIENT_ID = Some (ascii ''id''),
       NAVER_CLIENT_SECRET = Some (ascii ''secret''),
       fetch = (\<lambda>w params headers. (respond w params, Suc w)),
       uncheckedItems = (\<lambda>v. []),
       uncheckedTotal = (\<lambda>v. 0) \<rparr>"

text \<open>Two pages of one item each, with reported totals 7 and 5.\<close>

definition twoPages :: "nat \<Rightarrow> UrlSearchParams \<Rightarrow> fetch_outcome" where
  "twoPages w params =
     (if UrlSearchParams.start params = 1
      then okResponse (jsonPage [jsonItem (ascii ''a'') (ascii ''1000'') (ascii ''la'')] 7)
      else okResponse (jsonPage [jsonItem (ascii ''b'') (ascii ''2000'') (ascii ''lb'')] 5))"

text \<open>
  An upstream that answers every call, whatever the exclusion parameter, with one item whose
  title is the first keyword of \<open>EXCLUDE_KEYWORDS Used\<close>, priced 1000.
\<close>

definition usedPhonePage :: "nat \<Rightarrow> UrlSearchParams \<Rightarrow> fetch_outcome" where
  "usedPhonePage w params =
     okResponse (jsonPage [jsonItem [0xC911, 0xACE0] (ascii ''1000'') (ascii ''l'')] 1)"

text \<open>An upstream that answers with status 200 and the JSON body \<^verbatim>\<open>null\<close>.\<close>

definition nullBody :: "nat \<Rightarrow> UrlSearchParams \<Rightarrow> fetch_outcome" where
  "nullBody w params = okResponse JNull"

text \<open>An upstream that answers with status 200 and the JSON body \<^verbatim>\<open>[]\<close>.\<close>

definition arrayBody :: "nat \<Rightarrow> UrlSearchParams \<Rightarrow> fetch_outcome" where
  "arrayBody w params = okResponse (JArr [])"

section \<open>The filter engine\<close>

lemma set_dedupSeen: "set (dedupSeen seen xs) \<subseteq> set xs"
  by (induction xs arbitrary: seen) auto

lemma set_sortByPriceAsc: "set (sortByPriceAsc xs) = set xs"
  by (simp add: sortByPriceAsc_def)

lemma set_applyFiltersAndProcess:
  "set (applyFiltersAndProcess lc its minP maxP ex noise) \<subseteq>
     {x \<in> set its. matchesFilters lc x minP maxP ex noise}"
proof -
  have "set (dedupSeen {} (filter (\<lambda>item. matchesFilters lc item minP maxP ex noise) its))
          \<subseteq> set (filter (\<lambda>item. matchesFilters lc item minP maxP ex noise) its)"
    by (rule set_dedupSeen)
  then show ?thesis
    by (auto simp: applyFiltersAndProcess_def Let_def deduplicateByLink_def set_sortByPriceAsc)
qed

lemma matchesPriceFilter_iff:
  "matchesPriceFilter item minP maxP \<longleftrightarrow>
     0 < Item.lprice item \<and> (\<forall>m. minP = Some m \<longrightarrow> m \<le> Item.lprice item) \<and>
     (\<forall>m. maxP = Some m \<longrightarrow> Item.lprice item \<le> m)"
  by (auto simp: matchesPriceFilter_def split: option.splits)

lemma matchesFilters_price:
  "matchesFilters lc x minP maxP ex noise \<Longrightarrow> matchesPriceFilter x minP maxP"
  by (auto simp: matchesFilters_def split: if_splits)

lemma items_filterAndSortItems:
  "set (FilteringResult.items (filterAndSortItems lc raw f)) \<subseteq>
     {x \<in> set (map transformRawItem raw).
        matchesPriceFilter x (SearchFilters.minPrice f) (SearchFilters.maxPrice f)}"
  using set_applyFiltersAndProcess [of lc "map transformRawItem raw" "SearchFilters.minPrice f"
      "SearchFilters.maxPrice f" "SearchFilters.exclude f"]
  by (auto simp: filterAndSortItems_def Let_def dest: matchesFilters_price)

text \<open>
  Claim C3. An item whose \<open>lprice\<close> is at most 0 fails the price-bound check whatever
  \<open>minPrice\<close> and \<open>maxPrice\<close> are (both \<open>None\<close> included), so every item of a filtered result,
  of \<open>applyFiltersAndProcess\<close> and of \<open>filterAndSortItems\<close> alike, has a positive \<open>lprice\<close>.
\<close>

theorem nonpositive_price_is_excluded:
  "(Item.lprice item \<le> 0 \<longrightarrow> \<not> matchesPriceFilter item minP maxP) \<and>
   (\<forall>x \<in> set (applyFiltersAndProcess lc its minP maxP ex noise). 0 < Item.lprice x) \<and>
   (\<forall>x \<in> set (FilteringResult.items (filterAndSortItems lc raw f)). 0 < Item.lprice x)"
proof (intro conjI ballI impI)
  assume "Item.lprice item \<le> 0"
  then show "\<not> matchesPriceFilter item minP maxP"
    by (simp add: matchesPriceFilter_def)
next
  fix x assume "x \<in> set (applyFiltersAndProcess lc its minP maxP ex noise)"
  then have "matchesFilters lc x minP maxP ex noise"
    using set_applyFiltersAndProcess by blast
  then show "0 < Item.lprice x"
    using matchesFilters_price matchesPriceFilter_iff by blast
next
  fix x assume "x \<in> set (FilteringResult.items (filterAndSortItems lc raw f))"
  then have "matchesPriceFilter x (SearchFilters.minPrice f) (SearchFilters.maxPrice f)"
    using items_filterAndSortItems by blast
  then show "0 < Item.lprice x"
    by (simp add: matchesPriceFilter_iff)
qed

theorem nonpositive_price_is_excluded_witness:
  "Item.lprice (sampleItem (ascii ''z'') 0 (ascii ''b'')) \<le> 0 \<and>
   \<not> matchesPriceFilter (sampleItem (ascii ''z'') 0 (ascii ''b'')) None None \<and>
   applyFiltersAndProcess asciiLower
     [sampleItem (ascii ''y'') 1200 (ascii ''a''), sampleItem (ascii ''z'') 0 (ascii ''b'')]
     None None None False = [sampleItem (ascii ''y'') 1200 (ascii ''a'')] \<and>
   0 < Item.lprice (sampleItem (ascii ''y'') 1200 (ascii ''a'')) \<and>
   map Item.lprice (FilteringResult.items (filterAndSortItems asciiLower
     [sampleRaw (ascii ''<b>x</b> y'') (ascii ''1200'') (ascii ''a''),
      sampleRaw (ascii ''z'') (ascii ''0'') (ascii ''b'')]
     (sampleFilters None None None 1 False))) = [1200]"
  using nonpositive_price_is_excluded [of "sampleItem (ascii ''z'') 0 (ascii ''b'')" None None asciiLower
      "[sampleItem (ascii ''y'') 1200 (ascii ''a''), sampleItem (ascii ''z'') 0 (ascii ''b'')]"
      None False
      "[sampleRaw (ascii ''<b>x</b> y'') (ascii ''1200'') (ascii ''a''),
        sampleRaw (ascii ''z'') (ascii ''0'') (ascii ''b'')]"
      "sampleFilters None None None 1 False"]
  by (simp add: Let_def filterAndSortItems_def applyFiltersAndProcess_def matchesFilters_def
      matchesPriceFilter_def deduplicateByLink_def sortByPriceAsc_def sampleFilters_def
      transformRawItem_def sampleRaw_def sampleItem_def ascii_def stripHtmlTags_def trim_def
      isWhiteSpace_def safeParseInt_def parseInt10_def isDigit_def digitsValue_def)

lemma count_foldl:
  "foldl (\<lambda>count item. if P item then (if Q item then count + 1 else count) else count) n xs
     = n + length (filter (\<lambda>item. P item \<and> Q item) xs)"
  by (induction xs arbitrary: n) auto

text \<open>
  Claim C4, as the code has it. The diagnostic counter is the number of items that pass the
  price-bound check and whose \<open>titleText\<close> contains a keyword of one of the \<^emph>\<open>configured\<close>
  exclusion categories; with no category configured (\<open>exclude\<close> null or empty) it is 0. It is
  therefore not independent of the configuration: the two theorems after this one evaluate it on
  one item whose title is the first keyword of \<open>EXCLUDE_KEYWORDS Used\<close>.
\<close>

theorem countExcludedByKeywords_counts_configured:
  "countExcludedByKeywords lc its minP maxP ex =
     length (filter (\<lambda>item. matchesPriceFilter item minP maxP \<and>
       hasExcludeKeyword lc (Item.titleText item) (case ex of None \<Rightarrow> [] | Some opts \<Rightarrow> opts)) its)"
  by (cases ex) (auto simp: countExcludedByKeywords_def count_foldl)

theorem countExcludedByKeywords_depends_on_configuration:
  "matchesPriceFilter (sampleItem [0xC911, 0xACE0] 1000 (ascii ''a'')) None None \<and>
   hasExcludeKeyword asciiLower (Item.titleText (sampleItem [0xC911, 0xACE0] 1000 (ascii ''a''))) [Used] \<and>
   countExcludedByKeywords asciiLower [sampleItem [0xC911, 0xACE0] 1000 (ascii ''a'')] None None None = 0 \<and>
   countExcludedByKeywords asciiLower [sampleItem [0xC911, 0xACE0] 1000 (ascii ''a'')] None None (Some []) = 0 \<and>
   countExcludedByKeywords asciiLower [sampleItem [0xC911, 0xACE0] 1000 (ascii ''a'')] None None (Some [Used]) = 1"
  by (simp add: countExcludedByKeywords_def matchesPriceFilter_def sampleItem_def
      containsAnyKeyword_def asciiLower_def)

lemma links_dedupSeen: "Item.link ` set (dedupSeen seen xs) \<inter> seen = {}"
  by (induction xs arbitrary: seen) auto

lemma distinct_dedupSeen: "distinct (map Item.link (dedupSeen seen xs))"
proof (induction xs arbitrary: seen)
  case Nil
  show ?case by simp
next
  case (Cons a xs)
  show ?case
    using Cons.IH [of seen] Cons.IH [of "insert (Item.link a) seen"]
      links_dedupSeen [of "insert (Item.link a) seen" xs]
    by auto
qed

lemma dedupSeen_id:
  "distinct (map Item.link xs) \<Longrightarrow> Item.link ` set xs \<inter> seen = {} \<Longrightarrow> dedupSeen seen xs = xs"
  by (induction xs arbitrary: seen) auto

lemma distinct_map_insort_key:
  "distinct (map g (insort_key f x xs)) = distinct (map g (x # xs))"
  by (induction xs) (auto simp: set_insort_key)

lemma distinct_map_sort_key: "distinct (map g (sort_key f xs)) = distinct (map g xs)"
  by (induction xs) (auto simp: distinct_map_insort_key)

lemma applyFiltersAndProcess_idem:
  "applyFiltersAndProcess lc (applyFiltersAndProcess lc its minP maxP ex noise) minP maxP ex noise
     = applyFiltersAndProcess lc its minP maxP ex noise"
proof -
  define P where "P = (\<lambda>item. matchesFilters lc item minP maxP ex noise)"
  define out where "out = applyFiltersAndProcess lc its minP maxP ex noise"
  have out: "out = sort_key Item.lprice (dedupSeen {} (filter P its))"
    by (simp add: out_def P_def applyFiltersAndProcess_def Let_def deduplicateByLink_def
        sortByPriceAsc_def)
  have "\<forall>x \<in> set out. P x"
    using set_applyFiltersAndProcess [of lc its minP maxP ex noise] by (auto simp: out_def P_def)
  then have f: "filter P out = out"
    by (simp add: filter_id_conv)
  have "distinct (map Item.link out)"
    by (simp add: out distinct_map_sort_key distinct_dedupSeen)
  then have d: "dedupSeen {} out = out"
    by (simp add: dedupSeen_id)
  have "sorted (map Item.lprice out)"
    by (simp add: out)
  then have s: "sort_key Item.lprice out = out"
    by (rule sort_key_id_if_sorted)
  have "applyFiltersAndProcess lc out minP maxP ex noise
          = sort_key Item.lprice (dedupSeen {} (filter P out))"
    by (simp add: P_def applyFiltersAndProcess_def Let_def deduplicateByLink_def sortByPriceAsc_def)
  then show ?thesis
    by (simp add: f d s flip: out_def)
qed

text \<open>
  Claim C5. Running the filter, the deduplication by \<open>link\<close> and the price-ascending sort
  over their own output, with the same filter configuration, gives a list of the same length
  (by \<open>applyFiltersAndProcess_idem\<close> it is the same list).
\<close>

theorem applyFiltersAndProcess_count_idempotent:
  "length (applyFiltersAndProcess lc (applyFiltersAndProcess lc its minP maxP ex noise)
       minP maxP ex noise)
     = length (applyFiltersAndProcess lc its minP maxP ex noise)"
  by (simp add: applyFiltersAndProcess_idem)

section \<open>Price groups\<close>

lemma map_fst_mapSet:
  "map fst (mapSet m k v) = (if k \<in> fst ` set m then map fst m else map fst m @ [k])"
  by (induction m k v rule: mapSet.induct) force+

lemma set_mapSet: "set (mapSet m k v) \<subseteq> insert (k, v) (set m)"
  by (induction m k v rule: mapSet.induct) auto

lemma groupInv_mapSet:
  assumes "groupInv m" and "v \<noteq> []" and "length v \<le> MAX_ITEMS_PER_GROUP"
    and "\<forall>x \<in> set v. Item.lprice x = k"
  shows "groupInv (mapSet m k v)"
proof -
  have "distinct (map fst (mapSet m k v))"
    using assms(1) by (simp add: groupInv_def map_fst_mapSet)
  moreover have "\<forall>kv \<in> set (mapSet m k v). snd kv \<noteq> [] \<and> length (snd kv) \<le> MAX_ITEMS_PER_GROUP \<and>
        (\<forall>x \<in> set (snd kv). Item.lprice x = fst kv)"
  proof
    fix kv assume "kv \<in> set (mapSet m k v)"
    then have "kv = (k, v) \<or> kv \<in> set m"
      using set_mapSet [of m k v] by blast
    then show "snd kv \<noteq> [] \<and> length (snd kv) \<le> MAX_ITEMS_PER_GROUP \<and>
        (\<forall>x \<in> set (snd kv). Item.lprice x = fst kv)"
    proof
      assume "kv = (k, v)"
      then show ?thesis using assms(2-4) by simp
    next
      assume "kv \<in> set m"
      then show ?thesis using assms(1) unfolding groupInv_def by blast
    qed
  qed
  ultimately show ?thesis unfolding groupInv_def by blast
qed

lemma groupInv_step:
  assumes "groupInv m"
  shows "groupInv (groupStep m item)"
proof -
  define ex where "ex = (case map_of m (Item.lprice item) of None \<Rightarrow> [] | Some l \<Rightarrow> l)"
  show ?thesis
  proof (cases "length ex < MAX_ITEMS_PER_GROUP")
    case False
    then show ?thesis using assms by (simp add: groupStep_def Let_def ex_def)
  next
    case True
    have exk: "\<forall>x \<in> set ex. Item.lprice x = Item.lprice item"
    proof (cases "map_of m (Item.lprice item)")
      case None
      then show ?thesis by (simp add: ex_def)
    next
      case (Some l)
      then have "(Item.lprice item, l) \<in> set m" by (rule map_of_SomeD)
      then have "\<forall>x \<in> set l. Item.lprice x = Item.lprice item"
        using assms unfolding groupInv_def by fastforce
      then show ?thesis using Some by (simp add: ex_def)
    qed
    have "groupInv (mapSet m (Item.lprice item) (ex @ [item]))"
    proof (rule groupInv_mapSet [OF assms])
      show "ex @ [item] \<noteq> []" by simp
      show "length (ex @ [item]) \<le> MAX_ITEMS_PER_GROUP" using True by simp
      show "\<forall>x \<in> set (ex @ [item]). Item.lprice x = Item.lprice item" using exk by simp
    qed
    then show ?thesis using True by (simp add: groupStep_def Let_def ex_def)
  qed
qed

lemma groupInv_foldl: "groupInv m \<Longrightarrow> groupInv (foldl groupStep m its)"
  by (induction its arbitrary: m) (auto simp: groupInv_step)

lemma groupInv_Nil: "groupInv []" by (simp add: groupInv_def)

lemma set_sliceFromStart: "set (sliceFromStart xs e) \<subseteq> set xs"
  by (auto simp: sliceFromStart_def dest: in_set_takeD)

lemma length_sliceFromStart:
  "length (sliceFromStart xs e) = (if e < 0 then nat (int (length xs) + e) else min (nat e) (length xs))"
  by (auto simp: sliceFromStart_def)

lemma sorted_wrt_sliceFromStart: "sorted_wrt R xs \<Longrightarrow> sorted_wrt R (sliceFromStart xs e)"
  by (simp add: sliceFromStart_def sorted_wrt_take)

lemma groupByPrice_prices:
  "map PriceGroup.price (groupByPrice its maxGroups) =
     (if its = [] then [] else map fst (sliceFromStart (sort_key fst (foldl groupStep [] its)) maxGroups))"
  by (auto simp: groupByPrice_def Let_def split_def)

lemma strict_sorted_keys:
  assumes "groupInv m" shows "sorted_wrt (<) (map fst (sort_key fst m))"
proof -
  have "distinct (map fst (sort_key fst m))"
    using assms by (simp add: groupInv_def distinct_map_sort_key)
  moreover have "sorted (map fst (sort_key fst m))" by simp
  ultimately show ?thesis by (simp add: strict_sorted_iff)
qed


lemma groupByPrice_elem:
  assumes "g \<in> set (groupByPrice its maxGroups)"
  shows "\<exists>k v. (k, v) \<in> set (foldl groupStep [] its) \<and>
     g = \<lparr> PriceGroup.price = k, PriceGroup.count = length v, PriceGroup.items = v,
           PriceGroup.representative = hd v \<rparr>"
proof -
  have ne: "its \<noteq> []" using assms by (auto simp: groupByPrice_def)
  define sl where "sl = sliceFromStart (sort_key fst (foldl groupStep [] its)) maxGroups"
  have "groupByPrice its maxGroups = map (\<lambda>(p, groupItems).
                    \<lparr> PriceGroup.price = p,
                      PriceGroup.count = length groupItems,
                      PriceGroup.items = groupItems,
                      PriceGroup.representative = hd groupItems \<rparr>) sl"
    using ne by (simp add: groupByPrice_def Let_def sl_def)
  then obtain kv where kv: "kv \<in> set sl" and g: "g = (case kv of (p, groupItems) \<Rightarrow>
                    \<lparr> PriceGroup.price = p,
                      PriceGroup.count = length groupItems,
                      PriceGroup.items = groupItems,
                      PriceGroup.representative = hd groupItems \<rparr>)"
    using assms by auto
  have "set sl \<subseteq> set (sort_key fst (foldl groupStep [] its))"
    unfolding sl_def by (rule set_sliceFromStart)
  then have "kv \<in> set (foldl groupStep [] its)" using kv by auto
  moreover obtain k v where "kv = (k, v)" by (cases kv)
  ultimately show ?thesis using g by (intro exI [of _ k] exI [of _ v]) simp
qed

lemma groupByPrice_group:
  assumes "g \<in> set (groupByPrice its maxGroups)"
  shows "PriceGroup.count g = length (PriceGroup.items g) \<and>
      1 \<le> PriceGroup.count g \<and> PriceGroup.count g \<le> 20 \<and>
      (\<forall>x \<in> set (PriceGroup.items g). Item.lprice x = PriceGroup.price g) \<and>
      PriceGroup.items g \<noteq> [] \<and> PriceGroup.representative g = PriceGroup.items g ! 0"
proof -
  obtain k v where kv: "(k, v) \<in> set (foldl groupStep [] its)"
    and g: "g = \<lparr> PriceGroup.price = k, PriceGroup.count = length v, PriceGroup.items = v,
                   PriceGroup.representative = hd v \<rparr>"
    using groupByPrice_elem [OF assms] by blast
  have "groupInv (foldl groupStep [] its)" by (simp add: groupInv_foldl groupInv_Nil)
  then have "snd (k, v) \<noteq> [] \<and> length (snd (k, v)) \<le> MAX_ITEMS_PER_GROUP \<and>
        (\<forall>x \<in> set (snd (k, v)). Item.lprice x = fst (k, v))"
    using kv unfolding groupInv_def by blast
  then have v: "v \<noteq> []" "length v \<le> 20" "\<forall>x \<in> set v. Item.lprice x = k"
    by (simp_all add: MAX_ITEMS_PER_GROUP_def)
  have "1 \<le> length v" using v(1) by (cases v) auto
  then show ?thesis using v by (simp add: g hd_conv_nth)
qed

lemma groupByPrice_sorted: "sorted_wrt (<) (map PriceGroup.price (groupByPrice its maxGroups))"
proof (cases "its = []")
  case True
  then show ?thesis by (simp add: groupByPrice_def)
next
  case False
  define m where "m = foldl groupStep [] its"
  have inv: "groupInv m" by (simp add: m_def groupInv_foldl groupInv_Nil)
  have "sorted_wrt (<) (map fst (sort_key fst m))" by (rule strict_sorted_keys [OF inv])
  then have "sorted_wrt (\<lambda>a b. fst a < fst b) (sort_key fst m)" by (simp add: sorted_wrt_map)
  then have "sorted_wrt (\<lambda>a b. fst a < fst b) (sliceFromStart (sort_key fst m) maxGroups)"
    by (rule sorted_wrt_sliceFromStart)
  then have "sorted_wrt (<) (map fst (sliceFromStart (sort_key fst m) maxGroups))"
    by (simp add: sorted_wrt_map)
  then show ?thesis using False by (simp add: groupByPrice_prices m_def)
qed

lemma groupByPrice_length:
  "int (length (groupByPrice its maxGroups)) =
     (if its = [] then 0
      else if maxGroups < 0 then max 0 (int (length (foldl groupStep [] its)) + maxGroups)
      else min maxGroups (int (length (foldl groupStep [] its))))"
proof (cases "its = []")
  case True
  then show ?thesis by (simp add: groupByPrice_def)
next
  case False
  have "length (groupByPrice its maxGroups) =
          length (sliceFromStart (sort_key fst (foldl groupStep [] its)) maxGroups)"
    using False by (simp add: groupByPrice_def Let_def)
  then show ?thesis using False by (simp add: length_sliceFromStart) linarith
qed

text \<open>
  Claim C10. Every group returned by \<open>groupByPrice\<close> has \<open>count\<close> equal to the length of its
  \<open>items\<close>, between 1 and 20; every item of the group has the group's price;
  \<open>representative\<close> is the first item; the groups are in strictly increasing price order; and
  there are at most \<open>maxGroups\<close> of them, \<open>maxGroups\<close> being a maximum number of groups, that
  is a count \<open>maxGroups \<ge> 0\<close> (\<open>extractTopResults\<close>, the only caller, passes \<open>TOP_N = 10\<close>).
\<close>

theorem groupByPrice_group_invariants:
  "(\<forall>g \<in> set (groupByPrice its maxGroups).
      PriceGroup.count g = length (PriceGroup.items g) \<and>
      1 \<le> PriceGroup.count g \<and> PriceGroup.count g \<le> 20 \<and>
      (\<forall>x \<in> set (PriceGroup.items g). Item.lprice x = PriceGroup.price g) \<and>
      PriceGroup.items g \<noteq> [] \<and> PriceGroup.representative g = PriceGroup.items g ! 0) \<and>
   sorted_wrt (<) (map PriceGroup.price (groupByPrice its maxGroups)) \<and>
   (0 \<le> maxGroups \<longrightarrow> int (length (groupByPrice its maxGroups)) \<le> maxGroups)"
proof -
  have a: "\<forall>g \<in> set (groupByPrice its maxGroups).
      PriceGroup.count g = length (PriceGroup.items g) \<and>
      1 \<le> PriceGroup.count g \<and> PriceGroup.count g \<le> 20 \<and>
      (\<forall>x \<in> set (PriceGroup.items g). Item.lprice x = PriceGroup.price g) \<and>
      PriceGroup.items g \<noteq> [] \<and> PriceGroup.representative g = PriceGroup.items g ! 0"
    using groupByPrice_group by blast
  have b: "sorted_wrt (<) (map PriceGroup.price (groupByPrice its maxGroups))"
    by (rule groupByPrice_sorted)
  have c: "0 \<le> maxGroups \<longrightarrow> int (length (groupByPrice its maxGroups)) \<le> maxGroups"
    by (simp add: groupByPrice_length)
  from a b c show ?thesis by (intro conjI)
qed

theorem groupByPrice_group_invariants_witness:
  "(0 :: int) \<le> 10 \<and>
   map (\<lambda>g. (PriceGroup.price g, PriceGroup.count g, map Item.link (PriceGroup.items g), Item.link (PriceGroup.representative g)))
     (groupByPrice [sampleItem [] 100 [1], sampleItem [] 50 [2], sampleItem [] 100 [3]] 10)
     = [(50, 1, [[2]], [2]), (100, 2, [[1], [3]], [1])]"
  using groupByPrice_group_invariants [of "[sampleItem [] 100 [1], sampleItem [] 50 [2], sampleItem [] 100 [3]]" 10]
  by (simp add: groupByPrice_def Let_def groupStep_def sliceFromStart_def sampleItem_def MAX_ITEMS_PER_GROUP_def)

lemma foldl_groupStep_same:
  "\<forall>x \<in> set xs. Item.lprice x = p \<Longrightarrow>
     foldl groupStep [(p, v)] xs = [(p, v @ take (MAX_ITEMS_PER_GROUP - length v) xs)]"
proof (induction xs arbitrary: v)
  case Nil
  show ?case by simp
next
  case (Cons x xs)
  then have px: "Item.lprice x = p" and rest: "\<forall>y \<in> set xs. Item.lprice y = p" by simp_all
  show ?case
  proof (cases "length v < MAX_ITEMS_PER_GROUP")
    case True
    then have "groupStep [(p, v)] x = [(p, v @ [x])]"
      by (simp add: groupStep_def px)
    moreover have "MAX_ITEMS_PER_GROUP - length v = Suc (MAX_ITEMS_PER_GROUP - length (v @ [x]))"
      using True by simp
    ultimately show ?thesis using Cons.IH [OF rest, of "v @ [x]"] by simp
  next
    case False
    then have "groupStep [(p, v)] x = [(p, v)]"
      by (simp add: groupStep_def px)
    then show ?thesis using Cons.IH [OF rest, of v] False by simp
  qed
qed

lemma groupByPrice_single_price:
  assumes "its \<noteq> []" and "\<forall>x \<in> set its. Item.lprice x = p" and "1 \<le> maxGroups"
  shows "groupByPrice its maxGroups =
     [\<lparr> PriceGroup.price = p, PriceGroup.count = min (length its) MAX_ITEMS_PER_GROUP,
        PriceGroup.items = take MAX_ITEMS_PER_GROUP its, PriceGroup.representative = its ! 0 \<rparr>]"
proof -
  obtain x xs where its: "its = x # xs" using assms(1) by (cases its) auto
  have px: "Item.lprice x = p" and rest: "\<forall>y \<in> set xs. Item.lprice y = p"
    using assms(2) its by simp_all
  have "groupStep [] x = [(p, [x])]"
    by (simp add: groupStep_def px MAX_ITEMS_PER_GROUP_def)
  then have "foldl groupStep [] its = [(p, [x] @ take (MAX_ITEMS_PER_GROUP - length [x]) xs)]"
    using foldl_groupStep_same [OF rest, of "[x]"] by (simp add: its)
  also have "[x] @ take (MAX_ITEMS_PER_GROUP - length [x]) xs = take MAX_ITEMS_PER_GROUP its"
    by (simp add: its MAX_ITEMS_PER_GROUP_def)
  finally have m: "foldl groupStep [] its = [(p, take MAX_ITEMS_PER_GROUP its)]" .
  have s: "sliceFromStart (sort_key fst [(p, take MAX_ITEMS_PER_GROUP its)]) maxGroups
             = [(p, take MAX_ITEMS_PER_GROUP its)]"
    using assms(3) by (simp add: sliceFromStart_def)
  have "groupByPrice its maxGroups = map (\<lambda>(p, groupItems).
                    \<lparr> PriceGroup.price = p,
                      PriceGroup.count = length groupItems,
                      PriceGroup.items = groupItems,
                      PriceGroup.representative = hd groupItems \<rparr>)
                (sliceFromStart (sort_key fst (foldl groupStep [] its)) maxGroups)"
    using assms(1) by (simp add: groupByPrice_def Let_def)
  also have "\<dots> = [\<lparr> PriceGroup.price = p,
                      PriceGroup.count = length (take MAX_ITEMS_PER_GROUP its),
                      PriceGroup.items = take MAX_ITEMS_PER_GROUP its,
                      PriceGroup.representative = hd (take MAX_ITEMS_PER_GROUP its) \<rparr>]"
    unfolding m s by simp
  also have "hd (take MAX_ITEMS_PER_GROUP its) = its ! 0"
    by (simp add: its MAX_ITEMS_PER_GROUP_def)
  finally show ?thesis by (simp add: min.commute)
qed

lemma sort_key_replicate: "sort_key (\<lambda>p. p) (replicate n (x :: int)) = replicate n x"
  by (rule sort_key_id_if_sorted) simp

lemma calculatePriceBand_9900:
  "calculatePriceBand [\<lparr> PriceGroup.price = 9900, PriceGroup.count = 12,
        PriceGroup.items = its, PriceGroup.representative = r \<rparr>] =
     Some \<lparr> PriceBandSummary.minPrice = 9900, PriceBandSummary.maxPrice = 9900,
            PriceBandSummary.avgPrice = Num 9900, PriceBandSummary.medianPrice = Num 9900 \<rparr>"
  by (simp add: calculatePriceBand_def Let_def sort_key_replicate)

text \<open>
  Claim C9. For a list of exactly 12 items, all with \<open>lprice\<close> 9900, \<open>groupByPrice\<close> (with the
  default \<open>TOP_N\<close>) returns exactly one group, of price 9900 and count 12, holding the 12 items,
  and the price band over it has \<open>medianPrice = avgPrice = 9900\<close>.
\<close>

theorem twelve_items_at_9900:
  assumes "length its = 12" and "\<forall>x \<in> set its. Item.lprice x = 9900"
  shows "groupByPrice its TOP_N =
           [\<lparr> PriceGroup.price = 9900, PriceGroup.count = 12, PriceGroup.items = its,
              PriceGroup.representative = its ! 0 \<rparr>] \<and>
         calculatePriceBand (groupByPrice its TOP_N) =
           Some \<lparr> PriceBandSummary.minPrice = 9900, PriceBandSummary.maxPrice = 9900,
                  PriceBandSummary.avgPrice = Num 9900, PriceBandSummary.medianPrice = Num 9900 \<rparr>"
proof -
  have ne: "its \<noteq> []" using assms(1) by auto
  have g: "groupByPrice its TOP_N =
           [\<lparr> PriceGroup.price = 9900, PriceGroup.count = 12, PriceGroup.items = its,
              PriceGroup.representative = its ! 0 \<rparr>]"
    using groupByPrice_single_price [OF ne assms(2), of TOP_N] assms(1)
    by (simp add: TOP_N_def MAX_ITEMS_PER_GROUP_def)
  show ?thesis unfolding g by (simp add: calculatePriceBand_9900)
qed

theorem twelve_items_at_9900_witness:
  "length (replicate 12 (sampleItem [] 9900 [])) = 12 \<and>
   groupByPrice (replicate 12 (sampleItem [] 9900 [])) TOP_N =
     [\<lparr> PriceGroup.price = 9900, PriceGroup.count = 12,
        PriceGroup.items = replicate 12 (sampleItem [] 9900 []),
        PriceGroup.representative = replicate 12 (sampleItem [] 9900 []) ! 0 \<rparr>] \<and>
   calculatePriceBand (groupByPrice (replicate 12 (sampleItem [] 9900 [])) TOP_N) =
     Some \<lparr> PriceBandSummary.minPrice = 9900, PriceBandSummary.maxPrice = 9900,
            PriceBandSummary.avgPrice = Num 9900, PriceBandSummary.medianPrice = Num 9900 \<rparr>"
proof -
  have h1: "length (replicate 12 (sampleItem [] 9900 [])) = 12"
    by simp
  have h2: "\<forall>x \<in> set (replicate 12 (sampleItem [] 9900 [])). Item.lprice x = 9900"
    by (simp add: sampleItem_def)
  show ?thesis
    using twelve_items_at_9900 [OF h1 h2] h1 by blast
qed

section \<open>The outlier trim\<close>

text \<open>
  Claim C8. With fewer than 5 items (the minimum sample size) \<open>filterOutliers\<close> returns its
  input unchanged: every item, in the same order.
\<close>

theorem filterOutliers_small_sample_unchanged: "length its < 5 \<Longrightarrow> filterOutliers its = its"
  by (simp add: filterOutliers_def)

theorem filterOutliers_small_sample_unchanged_witness:
  "length [sampleItem [] 1 [], sampleItem [] 2 [], sampleItem [] 3 [], sampleItem [] 1000000 []] < 5 \<and>
   filterOutliers [sampleItem [] 1 [], sampleItem [] 2 [], sampleItem [] 3 [], sampleItem [] 1000000 []]
     = [sampleItem [] 1 [], sampleItem [] 2 [], sampleItem [] 3 [], sampleItem [] 1000000 []]"
  using filterOutliers_small_sample_unchanged [of "[sampleItem [] 1 [], sampleItem [] 2 [], sampleItem [] 3 [], sampleItem [] 1000000 []]"]
  by simp

text \<open>With five items the trim is in force: the far price is dropped.\<close>

lemma filterOutliers_five_items:
  "map Item.lprice (filterOutliers [sampleItem [] 1 [], sampleItem [] 2 [], sampleItem [] 3 [], sampleItem [] 4 [], sampleItem [] 1000000 []])
     = [1, 2, 3, 4]"
  by (simp add: filterOutliers_def Let_def sampleItem_def)

section \<open>The API client\<close>

lemma fetchPagesFrom_trace:
  "fetchPagesFrom R w q srt excl starts acc t = (Inr r, w') \<Longrightarrow>
     \<exists>pgs ws. length pgs = length starts \<and> length ws = Suc (length starts) \<and>
       ws ! 0 = w \<and> last ws = w' \<and>
       (\<forall>i < length starts.
          fetchSinglePage R (ws ! i) q (starts ! i) srt excl = (Inr (pgs ! i), ws ! Suc i)) \<and>
       PageResult.items r = acc @ concat (map PageResult.items pgs) \<and>
       PageResult.total r = (if pgs = [] then t else PageResult.total (last pgs))"
proof (induction starts arbitrary: w acc t)
  case Nil
  then have "r = \<lparr> PageResult.items = acc, PageResult.total = t \<rparr>" and "w' = w"
    by simp_all
  then show ?case
    by (intro exI [of _ "[]"] exI [of _ "[w]"]) simp
next
  case (Cons s starts)
  obtain res w1 where first: "fetchSinglePage R w q s srt excl = (res, w1)"
    by (cases "fetchSinglePage R w q s srt excl")
  show ?case
  proof (cases res)
    case (Inl e)
    then show ?thesis using Cons.prems first by simp
  next
    case (Inr page)
    then have rest: "fetchPagesFrom R w1 q srt excl starts (acc @ PageResult.items page) (PageResult.total page) = (Inr r, w')"
      using Cons.prems first by simp
    from Cons.IH [OF rest] obtain pgs ws where
      l1: "length pgs = length starts" and l2: "length ws = Suc (length starts)" and
      w0: "ws ! 0 = w1" and wl: "last ws = w'" and
      calls: "\<forall>i < length starts.
          fetchSinglePage R (ws ! i) q (starts ! i) srt excl = (Inr (pgs ! i), ws ! Suc i)" and
      its: "PageResult.items r = (acc @ PageResult.items page) @ concat (map PageResult.items pgs)" and
      tot: "PageResult.total r = (if pgs = [] then PageResult.total page else PageResult.total (last pgs))"
      by blast
    have ne: "ws \<noteq> []" using l2 by auto
    have calls': "\<forall>i < length (s # starts).
          fetchSinglePage R ((w # ws) ! i) q ((s # starts) ! i) srt excl
            = (Inr ((page # pgs) ! i), (w # ws) ! Suc i)"
    proof (intro allI impI)
      fix i assume i: "i < length (s # starts)"
      show "fetchSinglePage R ((w # ws) ! i) q ((s # starts) ! i) srt excl
            = (Inr ((page # pgs) ! i), (w # ws) ! Suc i)"
      proof (cases i)
        case 0
        then show ?thesis using first Inr w0 by simp
      next
        case (Suc j)
        then have "j < length starts" using i by simp
        then show ?thesis using calls Suc by simp
      qed
    qed
    show ?thesis
      apply (intro exI [of _ "page # pgs"] exI [of _ "w # ws"])
      using l1 l2 wl ne calls' its tot by simp
  qed
qed

lemma startValuesFrom_closed:
  "0 \<le> i \<Longrightarrow> e \<le> 10 \<Longrightarrow> startValuesFrom i e = map (\<lambda>k. 1 + 100 * k) [i..e - 1]"
proof (induction i e rule: startValuesFrom.induct)
  case (1 i e)
  show ?case
  proof (cases "i < e")
    case False
    then show ?thesis by (simp add: startValuesFrom.simps [of i e])
  next
    case True
    then have small: "\<not> 1 + i * DISPLAY_PER_PAGE > MAX_START_VALUE"
      using "1.prems" by (simp add: DISPLAY_PER_PAGE_def MAX_START_VALUE_def)
    have "startValuesFrom (i + 1) e = map (\<lambda>k. 1 + 100 * k) [i + 1..e - 1]"
      using "1.IH" [OF True refl small] "1.prems" by simp
    moreover have "[i..e - 1] = i # [i + 1..e - 1]"
      using True by (simp add: upto_rec1)
    ultimately show ?thesis
      using True small by (simp add: startValuesFrom.simps [of i e] DISPLAY_PER_PAGE_def Let_def)
  qed
qed

lemma calculateStartValues_closed:
  "calculateStartValues n = map (\<lambda>k. 1 + 100 * k) [0..min n 10 - 1]"
  by (simp add: calculateStartValues_def MAX_PAGES_def startValuesFrom_closed)

text \<open>
  Claim C6. When \<open>fetchAllPages\<close> succeeds, the start offsets are 1, 101, 201, ... (one per
  page, at most 10), the single-page calls were made in that order, each in the world the
  previous call left (\<open>ws\<close> lists the worlds, \<open>pgs\<close> the pages they returned), the items
  returned are the items of those pages concatenated in that order, and the total returned is
  the total of the last page fetched (0 when no page was fetched); no sum over pages.
\<close>

theorem fetchAllPages_concatenates_pages:
  assumes "fetchAllPages R w q n srt excl = (Inr r, w')"
  shows "calculateStartValues n = map (\<lambda>k. 1 + 100 * k) [0..min n 10 - 1] \<and>
     (\<exists>pgs ws. length pgs = length (calculateStartValues n) \<and>
        length ws = Suc (length pgs) \<and> ws ! 0 = w \<and> last ws = w' \<and>
        (\<forall>i < length pgs.
           fetchSinglePage R (ws ! i) q (calculateStartValues n ! i) srt excl
             = (Inr (pgs ! i), ws ! Suc i)) \<and>
        PageResult.items r = concat (map PageResult.items pgs) \<and>
        PageResult.total r = (if pgs = [] then 0 else PageResult.total (last pgs)))"
proof -
  from fetchPagesFrom_trace [OF assms [unfolded fetchAllPages_def]]
  obtain pgs ws where
    "length pgs = length (calculateStartValues n)" "length ws = Suc (length (calculateStartValues n))"
    "ws ! 0 = w" "last ws = w'"
    "\<forall>i < length (calculateStartValues n).
          fetchSinglePage R (ws ! i) q (calculateStartValues n ! i) srt excl = (Inr (pgs ! i), ws ! Suc i)"
    "PageResult.items r = [] @ concat (map PageResult.items pgs)"
    "PageResult.total r = (if pgs = [] then 0 else PageResult.total (last pgs))"
    by blast
  then have "\<exists>pgs ws. length pgs = length (calculateStartValues n) \<and>
        length ws = Suc (length pgs) \<and> ws ! 0 = w \<and> last ws = w' \<and>
        (\<forall>i < length pgs.
           fetchSinglePage R (ws ! i) q (calculateStartValues n ! i) srt excl
             = (Inr (pgs ! i), ws ! Suc i)) \<and>
        PageResult.items r = concat (map PageResult.items pgs) \<and>
        PageResult.total r = (if pgs = [] then 0 else PageResult.total (last pgs))"
    by (intro exI [of _ pgs] exI [of _ ws]) simp
  then show ?thesis using calculateStartValues_closed by blast
qed

lemma NaverShopItemSchema_jsonItem:
  "p \<noteq> [] \<Longrightarrow> NaverShopItemSchema (jsonItem t p l) = Some (sampleRaw t p l)"
  by (simp add: NaverShopItemSchema_def jsonItem_def property_def z_string_def
      z_string_optional_default_def lprice_preprocess_def sampleRaw_def ascii_def)

lemma Schema_jsonPage1:
  "p \<noteq> [] \<Longrightarrow> NaverShopApiResponseSchema (jsonPage [jsonItem t p l] tot) = Some ([sampleRaw t p l], tot)"
  by (simp add: NaverShopApiResponseSchema_def jsonPage_def property_def NaverShopItemSchema_jsonItem)
     (simp add: ascii_def)

lemma fetchSinglePage_sample:
  assumes "respond w (buildSearchParams
            \<lparr> FetchParams.query = q, FetchParams.display = DISPLAY_PER_PAGE,
              FetchParams.start = s, FetchParams.sort = srt, FetchParams.exclude = excl \<rparr>)
           = okResponse (jsonPage [jsonItem t p l] tot)" and "p \<noteq> []"
  shows "fetchSinglePage (sampleRuntime respond) w q s srt excl
           = (Inr \<lparr> PageResult.items = [sampleRaw t p l], PageResult.total = tot \<rparr>, Suc w)"
  using assms
  by (simp add: fetchSinglePage_def Let_def sampleRuntime_def buildHeaders_def ascii_def
      okResponse_def ok_def Schema_jsonPage1)

lemma calculateStartValues_2: "calculateStartValues 2 = [1, 101]"
  by (simp add: calculateStartValues_closed upto_rec1)

lemma fetchAllPages_twoPages: "fetchAllPages (sampleRuntime twoPages) 0 [] 2 Asc [] =
   (Inr \<lparr> PageResult.items = [sampleRaw (ascii ''a'') (ascii ''1000'') (ascii ''la''),
                               sampleRaw (ascii ''b'') (ascii ''2000'') (ascii ''lb'')],
          PageResult.total = 5 \<rparr>, 2)"
proof -
  have p1: "fetchSinglePage (sampleRuntime twoPages) 0 [] 1 Asc []
     = (Inr \<lparr> PageResult.items = [sampleRaw (ascii ''a'') (ascii ''1000'') (ascii ''la'')], PageResult.total = 7 \<rparr>, Suc 0)"
    by (rule fetchSinglePage_sample) (simp_all add: twoPages_def buildSearchParams_def ascii_def)
  have p2: "fetchSinglePage (sampleRuntime twoPages) (Suc 0) [] 101 Asc []
     = (Inr \<lparr> PageResult.items = [sampleRaw (ascii ''b'') (ascii ''2000'') (ascii ''lb'')], PageResult.total = 5 \<rparr>, Suc (Suc 0))"
    by (rule fetchSinglePage_sample) (simp_all add: twoPages_def buildSearchParams_def ascii_def)
  show ?thesis
    by (simp add: fetchAllPages_def calculateStartValues_2 p1 p2)
qed

theorem fetchAllPages_concatenates_pages_witness:
  "fetchAllPages (sampleRuntime twoPages) 0 [] 2 Asc [] =
     (Inr \<lparr> PageResult.items = [sampleRaw (ascii ''a'') (ascii ''1000'') (ascii ''la''),
                                 sampleRaw (ascii ''b'') (ascii ''2000'') (ascii ''lb'')],
            PageResult.total = 5 \<rparr>, 2) \<and>
   calculateStartValues 2 = [1, 101] \<and>
   fst (fetchSinglePage (sampleRuntime twoPages) 1 [] 101 Asc []) =
     Inr \<lparr> PageResult.items = [sampleRaw (ascii ''b'') (ascii ''2000'') (ascii ''lb'')],
           PageResult.total = 5 \<rparr>"
proof -
  have p2: "fetchSinglePage (sampleRuntime twoPages) (Suc 0) [] 101 Asc []
     = (Inr \<lparr> PageResult.items = [sampleRaw (ascii ''b'') (ascii ''2000'') (ascii ''lb'')], PageResult.total = 5 \<rparr>, Suc (Suc 0))"
    by (rule fetchSinglePage_sample) (simp_all add: twoPages_def buildSearchParams_def ascii_def)
  show ?thesis
    using fetchAllPages_concatenates_pages [OF fetchAllPages_twoPages] fetchAllPages_twoPages p2 by (simp add: upto_rec1)
qed

lemma sampleRuntime_headers:
  "buildHeaders (sampleRuntime respond) = Inr (ascii ''id'', ascii ''secret'')"
  by (simp add: buildHeaders_def sampleRuntime_def ascii_def)

lemma fetchSinglePage_cases:
  assumes "buildHeaders R = Inr h"
    and "fetch R w (buildSearchParams
            \<lparr> FetchParams.query = q, FetchParams.display = DISPLAY_PER_PAGE,
              FetchParams.start = s, FetchParams.sort = srt, FetchParams.exclude = excl \<rparr>) h
         = (outcome, w')"
  shows "fetchSinglePage R w q s srt excl =
     (case outcome of
        Rejected e \<Rightarrow> (Inl (catchError e), w')
      | Resolved response \<Rightarrow>
          if \<not> ok response
          then (Inl (NaverApiError (ResponseError (status response))
                       (HttpFailure (status response) (statusText response)
                          (case bodyText response of None \<Rightarrow> [] | Some b \<Rightarrow> b))), w')
          else (case bodyJson response of
                  Inl e \<Rightarrow> (Inl (catchError e), w')
                | Inr data \<Rightarrow>
                    (case NaverShopApiResponseSchema data of
                       Some (its, tot) \<Rightarrow>
                         (Inr \<lparr> PageResult.items = its, PageResult.total = tot \<rparr>, w')
                     | None \<Rightarrow>
                         (case bestEffort R data of
                            Inl e \<Rightarrow> (Inl (catchError e), w')
                          | Inr page \<Rightarrow> (Inr page, w')))))"
  using assms by (simp add: fetchSinglePage_def Let_def)

text \<open>
  What \<open>fetchSinglePage\<close> does on a timeout, on a non-success status and on a body that is
  valid JSON, not \<^verbatim>\<open>null\<close>, and does not match the schema: a \<open>TimeoutError\<close>; a
  \<open>NaverApiError\<close> carrying the status and the body; and a page with the missing \<open>items\<close>
  and \<open>total\<close> defaulted to the empty list and 0.
\<close>

lemma fetchSinglePage_timeout_and_status:
  assumes "buildHeaders R = Inr h"
    and "fetch R w (buildSearchParams
            \<lparr> FetchParams.query = q, FetchParams.display = DISPLAY_PER_PAGE,
              FetchParams.start = s, FetchParams.sort = srt, FetchParams.exclude = excl \<rparr>) h
         = (outcome, w')"
  shows "(outcome = Rejected AbortError \<longrightarrow>
            fetchSinglePage R w q s srt excl = (Inl (TimeoutError (Caught AbortError)), w')) \<and>
         (\<forall>response. outcome = Resolved response \<and> \<not> ok response \<longrightarrow>
            fetchSinglePage R w q s srt excl =
              (Inl (NaverApiError (ResponseError (status response))
                      (HttpFailure (status response) (statusText response)
                         (case bodyText response of None \<Rightarrow> [] | Some b \<Rightarrow> b))), w')) \<and>
         (\<forall>response data. outcome = Resolved response \<and> ok response \<and>
              bodyJson response = Inr data \<and> NaverShopApiResponseSchema data = None \<and> data \<noteq> JNull \<longrightarrow>
            (\<exists>page. fetchSinglePage R w q s srt excl = (Inr page, w') \<and>
               (property data (ascii ''items'') = None \<or> property data (ascii ''items'') = Some JNull
                  \<longrightarrow> PageResult.items page = []) \<and>
               (property data (ascii ''total'') = None \<or> property data (ascii ''total'') = Some JNull
                  \<longrightarrow> PageResult.total page = 0)))"
  unfolding fetchSinglePage_cases [OF assms]
  by (auto simp: catchError_def bestEffort_def)

text \<open>
  Claim C7 fails on the JSON body \<^verbatim>\<open>null\<close>: it parses as JSON and does not match the
  schema, and reading \<^verbatim>\<open>data.items\<close> of it throws, so the call fails with the general
  \<open>NaverApiError\<close> instead of returning the empty page. The theorem runs \<open>fetchSinglePage\<close> on a
  response of status 200 with that body.
\<close>

theorem fetchSinglePage_null_body_fails:
  "NaverShopApiResponseSchema JNull = None \<and>
   fetchSinglePage (sampleRuntime nullBody) 0 [] 1 Asc []
     = (Inl (NaverApiError CallFailed (Caught TypeError)), 1)"
  using fetchSinglePage_cases [OF sampleRuntime_headers, of nullBody 0 "[]" 1 Asc "[]" "okResponse JNull" 1]
  by (simp add: sampleRuntime_def nullBody_def okResponse_def ok_def NaverShopApiResponseSchema_def
      bestEffort_def catchError_def)

text \<open>A body that is an empty JSON array fails the schema too, and yields the empty page.\<close>

lemma fetchSinglePage_array_body:
  "NaverShopApiResponseSchema (JArr []) = None \<and>
   fetchSinglePage (sampleRuntime arrayBody) 0 [] 1 Asc []
     = (Inr \<lparr> PageResult.items = [], PageResult.total = 0 \<rparr>, 1)"
  using fetchSinglePage_cases [OF sampleRuntime_headers, of arrayBody 0 "[]" 1 Asc "[]" "okResponse (JArr [])" 1]
  by (simp add: sampleRuntime_def arrayBody_def okResponse_def ok_def NaverShopApiResponseSchema_def
      bestEffort_def property_def)

section \<open>The relaxation rounds of the search service\<close>

lemma appliedFilters_filterAndSortItems:
  "AppliedFilters.minPrice (FilteringResult.appliedFilters (filterAndSortItems lc raw f)) = SearchFilters.minPrice f"
  "AppliedFilters.maxPrice (FilteringResult.appliedFilters (filterAndSortItems lc raw f)) = SearchFilters.maxPrice f"
  by (simp_all add: filterAndSortItems_def Let_def)

lemma initialRound_keeps:
  "initialRound R w q fs = (Inr s0, w0) \<Longrightarrow> roundKeepsPriceBounds R fs s0"
  unfolding roundKeepsPriceBounds_def initialRound_def Let_def
  by (rule exI [of _ fs]) (auto split: prod.splits sum.splits)

lemma dropExcludeRound_keeps:
  assumes "roundKeepsPriceBounds R fs st" and "dropExcludeRound R w q fs st = (Inr st', w')"
  shows "roundKeepsPriceBounds R fs st'"
proof (cases "length (FilteringResult.items (SearchState.filterResult st)) = 0 \<and>
         (case SearchState.currentExclude st of None \<Rightarrow> False | Some e \<Rightarrow> length e > 0)")
  case False
  then have "st' = st" using assms(2) by (auto simp: dropExcludeRound_def)
  then show ?thesis using assms(1) by simp
next
  case True
  define f where "f = fs\<lparr> SearchFilters.minPrice := SearchFilters.minPrice fs,
                                  SearchFilters.maxPrice := SearchFilters.maxPrice fs,
                                  SearchFilters.filterNoise :=
                                    AppliedFilters.filterNoise
                                      (FilteringResult.appliedFilters (SearchState.filterResult st)),
                                  SearchFilters.exclude := None,
                                  SearchFilters.pages := SearchState.currentPages st \<rparr>"
  obtain res w2 where fp: "fetchAllPages R w q (SearchState.currentPages st) Asc [] = (res, w2)"
    by (cases "fetchAllPages R w q (SearchState.currentPages st) Asc []")
  show ?thesis
  proof (cases res)
    case (Inl e)
    then show ?thesis using True assms(2) fp by (simp add: dropExcludeRound_def)
  next
    case (Inr page)
    then have st': "st' = st\<lparr> SearchState.currentExclude := None,
                          SearchState.appliedRelaxation := SearchState.appliedRelaxation st @ [DropExclude],
                          SearchState.rawItems := PageResult.items page,
                          SearchState.totalFromApi := PageResult.total page,
                          SearchState.filterResult :=
                            filterAndSortItems (toLowerCase R) (PageResult.items page) f \<rparr>"
      using True assms(2) fp by (simp add: dropExcludeRound_def f_def)
    show ?thesis
      unfolding roundKeepsPriceBounds_def by (intro exI [of _ f]) (simp add: st' f_def)
  qed
qed

lemma reducePagesRound_keeps:
  assumes "roundKeepsPriceBounds R fs st" and "reducePagesRound R w q fs st = (Inr st', w')"
  shows "roundKeepsPriceBounds R fs st'"
proof (cases "length (FilteringResult.items (SearchState.filterResult st)) = 0 \<and>
         SearchState.currentPages st > 1")
  case False
  then have "st' = st" using assms(2) by (auto simp: reducePagesRound_def)
  then show ?thesis using assms(1) by simp
next
  case True
  define f where "f = fs\<lparr> SearchFilters.minPrice := SearchFilters.minPrice fs,
                                  SearchFilters.maxPrice := SearchFilters.maxPrice fs,
                                  SearchFilters.filterNoise := False,
                                  SearchFilters.exclude := SearchState.currentExclude st,
                                  SearchFilters.pages := 1 \<rparr>"
  obtain res w2 where fp: "fetchAllPages R w q 1 Asc (orEmpty (SearchState.currentExclude st)) = (res, w2)"
    by (cases "fetchAllPages R w q 1 Asc (orEmpty (SearchState.currentExclude st))")
  show ?thesis
  proof (cases res)
    case (Inl e)
    then show ?thesis using True assms(2) fp by (simp add: reducePagesRound_def)
  next
    case (Inr page)
    then have st': "st' = st\<lparr> SearchState.currentPages := 1,
                          SearchState.appliedRelaxation := SearchState.appliedRelaxation st @ [ReducePages],
                          SearchState.rawItems := PageResult.items page,
                          SearchState.totalFromApi := PageResult.total page,
                          SearchState.filterResult :=
                            filterAndSortItems (toLowerCase R) (PageResult.items page) f \<rparr>"
      using True assms(2) fp by (simp add: reducePagesRound_def f_def)
    show ?thesis
      unfolding roundKeepsPriceBounds_def by (intro exI [of _ f]) (simp add: st' f_def)
  qed
qed

lemma roundKeepsPriceBounds_items:
  assumes "roundKeepsPriceBounds R fs st"
    and "x \<in> set (FilteringResult.items (SearchState.filterResult st))"
  shows "matchesPriceFilter x (SearchFilters.minPrice fs) (SearchFilters.maxPrice fs)"
  using assms items_filterAndSortItems unfolding roundKeepsPriceBounds_def by fastforce

lemma getLowestPrice_rounds:
  assumes "getLowestPrice R w q fs = (Inr r, w')"
  shows "\<exists>s0 w0 s1 w1 s2.
       initialRound R w q fs = (Inr s0, w0) \<and>
       dropExcludeRound R w0 q fs s0 = (Inr s1, w1) \<and>
       reducePagesRound R w1 q fs s1 = (Inr s2, w') \<and>
       r = buildResponse q fs s2"
  using assms unfolding getLowestPrice_def
  by (auto split: prod.splits sum.splits)

lemma groupItemsWithin_step:
  assumes "groupItemsWithin S m" and "item \<in> S"
  shows "groupItemsWithin S (groupStep m item)"
proof -
  define ex where "ex = (case map_of m (Item.lprice item) of None \<Rightarrow> [] | Some l \<Rightarrow> l)"
  have exS: "set ex \<subseteq> S"
  proof (cases "map_of m (Item.lprice item)")
    case None
    then show ?thesis by (simp add: ex_def)
  next
    case (Some l)
    then have "(Item.lprice item, l) \<in> set m" by (rule map_of_SomeD)
    then have "set l \<subseteq> S" using assms(1) unfolding groupItemsWithin_def by fastforce
    then show ?thesis using Some by (simp add: ex_def)
  qed
  have "groupItemsWithin S (mapSet m (Item.lprice item) (ex @ [item]))"
    unfolding groupItemsWithin_def
  proof
    fix kv assume "kv \<in> set (mapSet m (Item.lprice item) (ex @ [item]))"
    then have "kv = (Item.lprice item, ex @ [item]) \<or> kv \<in> set m"
      using set_mapSet [of m "Item.lprice item" "ex @ [item]"] by blast
    then show "set (snd kv) \<subseteq> S"
      using assms exS unfolding groupItemsWithin_def by auto
  qed
  then show ?thesis using assms(1) by (simp add: groupStep_def Let_def ex_def)
qed

lemma groupItemsWithin_foldl:
  "groupItemsWithin S m \<Longrightarrow> set its \<subseteq> S \<Longrightarrow> groupItemsWithin S (foldl groupStep m its)"
  by (induction its arbitrary: m) (auto simp: groupItemsWithin_step)

lemma groupByPrice_items_subset:
  assumes "g \<in> set (groupByPrice its maxGroups)"
  shows "set (PriceGroup.items g) \<subseteq> set its"
proof -
  obtain k v where kv: "(k, v) \<in> set (foldl groupStep [] its)"
    and g: "g = \<lparr> PriceGroup.price = k, PriceGroup.count = length v, PriceGroup.items = v,
                   PriceGroup.representative = hd v \<rparr>"
    using groupByPrice_elem [OF assms] by blast
  have "groupItemsWithin (set its) (foldl groupStep [] its)"
    by (rule groupItemsWithin_foldl) (simp_all add: groupItemsWithin_def)
  then have "set (snd (k, v)) \<subseteq> set its"
    using kv unfolding groupItemsWithin_def by blast
  then show ?thesis by (simp add: g)
qed

lemma buildResponse_fields:
  "AppliedFilters.minPrice (LowestPriceResponse.appliedFilters (buildResponse q fs st)) = SearchFilters.minPrice fs"
  "AppliedFilters.maxPrice (LowestPriceResponse.appliedFilters (buildResponse q fs st)) = SearchFilters.maxPrice fs"
  "LowestPriceResponse.top10Groups (buildResponse q fs st)
     = groupByPrice (FilteringResult.items (SearchState.filterResult st)) TOP_N"
  "LowestPriceResponse.top1 (buildResponse q fs st)
     = (if length (FilteringResult.items (SearchState.filterResult st)) > 0
        then Some (FilteringResult.items (SearchState.filterResult st) ! 0) else None)"
  "LowestPriceResponse.appliedRelaxation (buildResponse q fs st)
     = FilteringResult.appliedRelaxation (SearchState.filterResult st) @ SearchState.appliedRelaxation st"
  by (simp_all add: buildResponse_def extractTopResults_def Let_def)

text \<open>
  The filters that \<open>normalizeFilters\<close> hands to the service: bounds that are not negative and
  not inverted, and at most 10 pages.
\<close>

lemma normalizeFilters_bounds:
  "(\<forall>lo. SearchFilters.minPrice (normalizeFilters request) = Some lo \<longrightarrow> 0 \<le> lo) \<and>
   (\<forall>hi. SearchFilters.maxPrice (normalizeFilters request) = Some hi \<longrightarrow> 0 \<le> hi) \<and>
   (\<forall>lo hi. SearchFilters.minPrice (normalizeFilters request) = Some lo \<and>
      SearchFilters.maxPrice (normalizeFilters request) = Some hi \<longrightarrow> lo \<le> hi) \<and>
   SearchFilters.pages (normalizeFilters request) \<le> 10"
  by (auto simp: normalizeFilters_def Let_def DEFAULT_PAGES_def MAX_PAGES_def split: option.splits if_splits)

text \<open>
  Claim C1. A search that returns went through the initial round and the two service-level
  relaxation rounds (each of which either fires or leaves the state as it is); in every round
  the filtering ran under filters whose \<open>minPrice\<close> and \<open>maxPrice\<close> are those of the request,
  the returned \<open>appliedFilters\<close> carry exactly those bounds (so neither is null when the
  request's was not), and the cheapest item and every item of the price groups satisfy them.
\<close>

theorem price_bounds_never_relaxed:
  assumes "getLowestPrice R w q fs = (Inr r, w')"
  shows "(\<exists>s0 w0 s1 w1 s2.
       initialRound R w q fs = (Inr s0, w0) \<and>
       dropExcludeRound R w0 q fs s0 = (Inr s1, w1) \<and>
       reducePagesRound R w1 q fs s1 = (Inr s2, w') \<and>
       r = buildResponse q fs s2 \<and>
       roundKeepsPriceBounds R fs s0 \<and> roundKeepsPriceBounds R fs s1 \<and> roundKeepsPriceBounds R fs s2) \<and>
     AppliedFilters.minPrice (LowestPriceResponse.appliedFilters r) = SearchFilters.minPrice fs \<and>
     AppliedFilters.maxPrice (LowestPriceResponse.appliedFilters r) = SearchFilters.maxPrice fs \<and>
     (SearchFilters.minPrice fs \<noteq> None \<longrightarrow>
        AppliedFilters.minPrice (LowestPriceResponse.appliedFilters r) \<noteq> None) \<and>
     (SearchFilters.maxPrice fs \<noteq> None \<longrightarrow>
        AppliedFilters.maxPrice (LowestPriceResponse.appliedFilters r) \<noteq> None) \<and>
     (\<forall>x. LowestPriceResponse.top1 r = Some x \<longrightarrow>
        matchesPriceFilter x (SearchFilters.minPrice fs) (SearchFilters.maxPrice fs)) \<and>
     (\<forall>g \<in> set (LowestPriceResponse.top10Groups r). \<forall>x \<in> set (PriceGroup.items g).
        matchesPriceFilter x (SearchFilters.minPrice fs) (SearchFilters.maxPrice fs))"
proof -
  from getLowestPrice_rounds [OF assms] obtain s0 w0 s1 w1 s2 where
    r0: "initialRound R w q fs = (Inr s0, w0)" and
    r1: "dropExcludeRound R w0 q fs s0 = (Inr s1, w1)" and
    r2: "reducePagesRound R w1 q fs s1 = (Inr s2, w')" and
    r: "r = buildResponse q fs s2"
    by blast
  have k0: "roundKeepsPriceBounds R fs s0" by (rule initialRound_keeps [OF r0])
  have k1: "roundKeepsPriceBounds R fs s1" by (rule dropExcludeRound_keeps [OF k0 r1])
  have k2: "roundKeepsPriceBounds R fs s2" by (rule reducePagesRound_keeps [OF k1 r2])
  have rounds: "\<exists>s0 w0 s1 w1 s2.
       initialRound R w q fs = (Inr s0, w0) \<and>
       dropExcludeRound R w0 q fs s0 = (Inr s1, w1) \<and>
       reducePagesRound R w1 q fs s1 = (Inr s2, w') \<and>
       r = buildResponse q fs s2 \<and>
       roundKeepsPriceBounds R fs s0 \<and> roundKeepsPriceBounds R fs s1 \<and> roundKeepsPriceBounds R fs s2"
    using r0 r1 r2 r k0 k1 k2 by blast
  have lo: "AppliedFilters.minPrice (LowestPriceResponse.appliedFilters r) = SearchFilters.minPrice fs"
    and hi: "AppliedFilters.maxPrice (LowestPriceResponse.appliedFilters r) = SearchFilters.maxPrice fs"
    by (simp_all add: r buildResponse_fields)
  have t: "\<forall>x. LowestPriceResponse.top1 r = Some x \<longrightarrow>
        matchesPriceFilter x (SearchFilters.minPrice fs) (SearchFilters.maxPrice fs)"
  proof (intro allI impI)
    fix x assume "LowestPriceResponse.top1 r = Some x"
    then have "x \<in> set (FilteringResult.items (SearchState.filterResult s2))"
      by (auto simp: r buildResponse_fields split: if_splits)
    then show "matchesPriceFilter x (SearchFilters.minPrice fs) (SearchFilters.maxPrice fs)"
      by (rule roundKeepsPriceBounds_items [OF k2])
  qed
  have g: "\<forall>g \<in> set (LowestPriceResponse.top10Groups r). \<forall>x \<in> set (PriceGroup.items g).
        matchesPriceFilter x (SearchFilters.minPrice fs) (SearchFilters.maxPrice fs)"
  proof (intro ballI)
    fix g x assume "g \<in> set (LowestPriceResponse.top10Groups r)" and x: "x \<in> set (PriceGroup.items g)"
    then have "set (PriceGroup.items g) \<subseteq> set (FilteringResult.items (SearchState.filterResult s2))"
      by (simp add: r buildResponse_fields groupByPrice_items_subset)
    then have "x \<in> set (FilteringResult.items (SearchState.filterResult s2))" using x by blast
    then show "matchesPriceFilter x (SearchFilters.minPrice fs) (SearchFilters.maxPrice fs)"
      by (rule roundKeepsPriceBounds_items [OF k2])
  qed
  show ?thesis using rounds lo hi t g by simp
qed

lemma calculateStartValues_1: "calculateStartValues 1 = [1]"
  by (simp add: calculateStartValues_closed upto_rec1)

lemma fetch_usedPhonePage:
  "fetchAllPages (sampleRuntime usedPhonePage) w q 1 Asc excl =
     (Inr \<lparr> PageResult.items = [sampleRaw [0xC911, 0xACE0] (ascii ''1000'') (ascii ''l'')],
            PageResult.total = 1 \<rparr>, Suc w)"
proof -
  have "fetchSinglePage (sampleRuntime usedPhonePage) w q 1 Asc excl
     = (Inr \<lparr> PageResult.items = [sampleRaw [0xC911, 0xACE0] (ascii ''1000'') (ascii ''l'')],
              PageResult.total = 1 \<rparr>, Suc w)"
    by (rule fetchSinglePage_sample) (simp_all add: usedPhonePage_def ascii_def)
  then show ?thesis
    by (simp add: fetchAllPages_def calculateStartValues_1)
qed

lemma transform_usedPhone:
  "transformRawItem (sampleRaw [0xC911, 0xACE0] (ascii ''1000'') (ascii ''l''))
     = sampleItem [0xC911, 0xACE0] 1000 (ascii ''l'')"
  by (simp add: transformRawItem_def sampleRaw_def sampleItem_def ascii_def stripHtmlTags_def trim_def
      isWhiteSpace_def safeParseInt_def parseInt10_def isDigit_def digitsValue_def)

lemma usedPhone_checks:
  "matchesPriceFilter (sampleItem [0xC911, 0xACE0] 1000 (ascii ''l'')) (Some 500) (Some 2000)"
  "hasExcludeKeyword asciiLower (Item.titleText (sampleItem [0xC911, 0xACE0] 1000 (ascii ''l''))) [Used]"
  "\<not> hasNoiseKeyword asciiLower (Item.titleText (sampleItem [0xC911, 0xACE0] 1000 (ascii ''l'')))"
  by (simp_all add: matchesPriceFilter_def sampleItem_def containsAnyKeyword_def asciiLower_def
      hasNoiseKeyword_def NOISE_KEYWORDS_def)

lemma filter_usedPhone_round0:
  "filterAndSortItems asciiLower [sampleRaw [0xC911, 0xACE0] (ascii ''1000'') (ascii ''l'')]
     (sampleFilters (Some 500) (Some 2000) (Some [Used]) 1 True)
   = \<lparr> FilteringResult.items = [],
       FilteringResult.filterRelaxed = True,
       FilteringResult.appliedRelaxation = [DropFilterNoise],
       FilteringResult.appliedFilters =
         \<lparr> AppliedFilters.minPrice = Some 500, AppliedFilters.maxPrice = Some 2000,
           AppliedFilters.filterNoise = False, AppliedFilters.exclude = Some [Used],
           AppliedFilters.excludeKeywordsEnabled = True, AppliedFilters.pages = 1 \<rparr>,
       FilteringResult.excludedByKeywordsCount = 1 \<rparr>"
  by (simp add: filterAndSortItems_def Let_def transform_usedPhone sampleFilters_def
      applyFiltersAndProcess_def matchesFilters_def usedPhone_checks deduplicateByLink_def
      sortByPriceAsc_def countExcludedByKeywords_def del: hasExcludeKeyword.simps)

lemma filter_usedPhone_round2:
  "filterAndSortItems asciiLower [sampleRaw [0xC911, 0xACE0] (ascii ''1000'') (ascii ''l'')]
     (sampleFilters (Some 500) (Some 2000) None 1 False)
   = \<lparr> FilteringResult.items = [sampleItem [0xC911, 0xACE0] 1000 (ascii ''l'')],
       FilteringResult.filterRelaxed = False,
       FilteringResult.appliedRelaxation = [],
       FilteringResult.appliedFilters =
         \<lparr> AppliedFilters.minPrice = Some 500, AppliedFilters.maxPrice = Some 2000,
           AppliedFilters.filterNoise = False, AppliedFilters.exclude = None,
           AppliedFilters.excludeKeywordsEnabled = False, AppliedFilters.pages = 1 \<rparr>,
       FilteringResult.excludedByKeywordsCount = 0 \<rparr>"
  by (simp add: filterAndSortItems_def Let_def transform_usedPhone sampleFilters_def
      applyFiltersAndProcess_def matchesFilters_def usedPhone_checks deduplicateByLink_def
      sortByPriceAsc_def countExcludedByKeywords_def del: hasExcludeKeyword.simps)

lemma initialRound_usedPhone:
  "initialRound (sampleRuntime usedPhonePage) 0 q (sampleFilters (Some 500) (Some 2000) (Some [Used]) 1 True)
   = (Inr \<lparr> SearchState.rawItems = [sampleRaw [0xC911, 0xACE0] (ascii ''1000'') (ascii ''l'')],
            SearchState.totalFromApi = 1,
            SearchState.filterResult =
              filterAndSortItems asciiLower [sampleRaw [0xC911, 0xACE0] (ascii ''1000'') (ascii ''l'')]
                (sampleFilters (Some 500) (Some 2000) (Some [Used]) 1 True),
            SearchState.currentExclude = Some [Used],
            SearchState.currentPages = 1,
            SearchState.appliedRelaxation = [] \<rparr>, 1)"
proof -
  have f: "SearchFilters.pages (sampleFilters (Some 500) (Some 2000) (Some [Used]) 1 True) = 1"
    "SearchFilters.exclude (sampleFilters (Some 500) (Some 2000) (Some [Used]) 1 True) = Some [Used]"
    "toLowerCase (sampleRuntime usedPhonePage) = asciiLower"
    "(sampleFilters (Some 500) (Some 2000) (Some [Used]) 1 True)
      \<lparr> SearchFilters.exclude := Some [Used], SearchFilters.pages := 1 \<rparr>
      = sampleFilters (Some 500) (Some 2000) (Some [Used]) 1 True"
    by (simp_all add: sampleFilters_def sampleRuntime_def)
  show ?thesis
    by (simp add: initialRound_def Let_def f fetch_usedPhonePage)
qed

lemma getLowestPrice_usedPhone:
  "getLowestPrice (sampleRuntime usedPhonePage) 0 q (sampleFilters (Some 500) (Some 2000) (Some [Used]) 1 True)
   = (Inr (buildResponse q (sampleFilters (Some 500) (Some 2000) (Some [Used]) 1 True)
        \<lparr> SearchState.rawItems = [sampleRaw [0xC911, 0xACE0] (ascii ''1000'') (ascii ''l'')],
            SearchState.totalFromApi = 1,
            SearchState.filterResult =
              filterAndSortItems asciiLower [sampleRaw [0xC911, 0xACE0] (ascii ''1000'') (ascii ''l'')]
                (sampleFilters (Some 500) (Some 2000) None 1 False),
            SearchState.currentExclude = None,
            SearchState.currentPages = 1,
            SearchState.appliedRelaxation = [DropExclude] \<rparr>), 2)"
proof -
  have f: "toLowerCase (sampleRuntime usedPhonePage) = asciiLower"
    by (simp add: sampleRuntime_def)
  have g: "(sampleFilters (Some 500) (Some 2000) (Some [Used]) 1 True)
      \<lparr> SearchFilters.filterNoise := False, SearchFilters.exclude := None, SearchFilters.pages := 1 \<rparr>
      = sampleFilters (Some 500) (Some 2000) None 1 False"
    by (simp add: sampleFilters_def)
  show ?thesis
    unfolding getLowestPrice_def initialRound_usedPhone
    by (simp add: dropExcludeRound_def reducePagesRound_def filter_usedPhone_round0 f g
        fetch_usedPhonePage filter_usedPhone_round2)
qed

theorem price_bounds_never_relaxed_witness:
  "fst (getLowestPrice (sampleRuntime usedPhonePage) 0 []
          (sampleFilters (Some 500) (Some 2000) (Some [Used]) 1 True))
     = Inr (buildResponse [] (sampleFilters (Some 500) (Some 2000) (Some [Used]) 1 True)
        \<lparr> SearchState.rawItems = [sampleRaw [0xC911, 0xACE0] (ascii ''1000'') (ascii ''l'')],
            SearchState.totalFromApi = 1,
            SearchState.filterResult =
              filterAndSortItems asciiLower [sampleRaw [0xC911, 0xACE0] (ascii ''1000'') (ascii ''l'')]
                (sampleFilters (Some 500) (Some 2000) None 1 False),
            SearchState.currentExclude = None,
            SearchState.currentPages = 1,
            SearchState.appliedRelaxation = [DropExclude] \<rparr>) \<and>
   map_sum id (\<lambda>r. (AppliedFilters.minPrice (LowestPriceResponse.appliedFilters r),
                      AppliedFilters.maxPrice (LowestPriceResponse.appliedFilters r),
                      LowestPriceResponse.appliedRelaxation r,
                      map_option Item.lprice (LowestPriceResponse.top1 r),
                      map PriceGroup.price (LowestPriceResponse.top10Groups r)))
     (fst (getLowestPrice (sampleRuntime usedPhonePage) 0 []
          (sampleFilters (Some 500) (Some 2000) (Some [Used]) 1 True)))
     = Inr (Some 500, Some 2000, [DropExclude], Some 1000, [1000])"
  using price_bounds_never_relaxed [OF getLowestPrice_usedPhone [of "[]"]]
  by (simp add: getLowestPrice_usedPhone buildResponse_fields filter_usedPhone_round2)
     (simp add: sampleFilters_def sampleItem_def groupByPrice_def Let_def groupStep_def
        sliceFromStart_def MAX_ITEMS_PER_GROUP_def TOP_N_def)

text \<open>
  What holds of the returned log for every search: it is a sublist of
  \<open>[DropFilterNoise, DropExclude, ReducePages]\<close> in that order, \<open>DropExclude\<close> is in it only if
  the request's \<open>exclude\<close> is a non-empty list, and \<open>ReducePages\<close> only if its \<open>pages\<close> exceed 1.
\<close>

lemma filterAndSortItems_log:
  "FilteringResult.appliedRelaxation (filterAndSortItems lc raw f) = [] \<or>
   FilteringResult.appliedRelaxation (filterAndSortItems lc raw f) = [DropFilterNoise] \<and>
     SearchFilters.filterNoise f"
  by (simp add: filterAndSortItems_def Let_def)

lemma initialRound_state:
  assumes "initialRound R w q fs = (Inr s0, w0)"
  shows "SearchState.appliedRelaxation s0 = [] \<and>
         SearchState.currentExclude s0 = SearchFilters.exclude fs \<and>
         SearchState.currentPages s0 = SearchFilters.pages fs"
  using assms unfolding initialRound_def Let_def
  by (auto split: prod.splits sum.splits)

lemma dropExcludeRound_state:
  assumes "dropExcludeRound R w q fs st = (Inr st', w')"
  shows "st' = st \<or>
         (\<exists>e. SearchState.currentExclude st = Some e \<and> e \<noteq> []) \<and>
         FilteringResult.items (SearchState.filterResult st) = [] \<and>
         SearchState.appliedRelaxation st' = SearchState.appliedRelaxation st @ [DropExclude] \<and>
         SearchState.currentPages st' = SearchState.currentPages st"
  using assms unfolding dropExcludeRound_def
  by (auto split: if_splits prod.splits sum.splits option.splits)

lemma reducePagesRound_state:
  assumes "reducePagesRound R w q fs st = (Inr st', w')"
  shows "st' = st \<or>
         1 < SearchState.currentPages st \<and>
         FilteringResult.items (SearchState.filterResult st) = [] \<and>
         SearchState.appliedRelaxation st' = SearchState.appliedRelaxation st @ [ReducePages]"
  using assms unfolding reducePagesRound_def
  by (auto split: if_splits prod.splits sum.splits)

lemma relaxation_log_shape:
  assumes "getLowestPrice R w q fs = (Inr r, w')"
  shows "\<exists>a b c. LowestPriceResponse.appliedRelaxation r =
            (if a then [DropFilterNoise] else []) @ (if b then [DropExclude] else []) @
            (if c then [ReducePages] else []) \<and>
          (b \<longrightarrow> (\<exists>e. SearchFilters.exclude fs = Some e \<and> e \<noteq> [])) \<and>
          (c \<longrightarrow> 1 < SearchFilters.pages fs)"
proof -
  from getLowestPrice_rounds [OF assms] obtain s0 w0 s1 w1 s2 where
    r0: "initialRound R w q fs = (Inr s0, w0)" and
    r1: "dropExcludeRound R w0 q fs s0 = (Inr s1, w1)" and
    r2: "reducePagesRound R w1 q fs s1 = (Inr s2, w')" and
    r: "r = buildResponse q fs s2"
    by blast
  have k2: "roundKeepsPriceBounds R fs s2"
    using initialRound_keeps [OF r0] dropExcludeRound_keeps [OF _ r1] reducePagesRound_keeps [OF _ r2]
    by blast
  then obtain f where "SearchState.filterResult s2 =
      filterAndSortItems (toLowerCase R) (SearchState.rawItems s2) f"
    unfolding roundKeepsPriceBounds_def by blast
  then have first: "FilteringResult.appliedRelaxation (SearchState.filterResult s2) = [] \<or>
      FilteringResult.appliedRelaxation (SearchState.filterResult s2) = [DropFilterNoise]"
    using filterAndSortItems_log [of "toLowerCase R" "SearchState.rawItems s2" f] by auto
  have l0: "SearchState.appliedRelaxation s0 = []"
    "SearchState.currentExclude s0 = SearchFilters.exclude fs"
    "SearchState.currentPages s0 = SearchFilters.pages fs"
    using initialRound_state [OF r0] by simp_all
  have "\<exists>b. SearchState.appliedRelaxation s1 = (if b then [DropExclude] else []) \<and>
            SearchState.currentPages s1 = SearchFilters.pages fs \<and>
            (b \<longrightarrow> (\<exists>e. SearchFilters.exclude fs = Some e \<and> e \<noteq> []))"
    using dropExcludeRound_state [OF r1]
  proof
    assume "s1 = s0"
    then show ?thesis using l0 by (intro exI [of _ False]) simp
  next
    assume "(\<exists>e. SearchState.currentExclude s0 = Some e \<and> e \<noteq> []) \<and>
         FilteringResult.items (SearchState.filterResult s0) = [] \<and>
         SearchState.appliedRelaxation s1 = SearchState.appliedRelaxation s0 @ [DropExclude] \<and>
         SearchState.currentPages s1 = SearchState.currentPages s0"
    then show ?thesis using l0 by (intro exI [of _ True]) simp
  qed
  then obtain b where l1: "SearchState.appliedRelaxation s1 = (if b then [DropExclude] else [])"
    "SearchState.currentPages s1 = SearchFilters.pages fs"
    "b \<longrightarrow> (\<exists>e. SearchFilters.exclude fs = Some e \<and> e \<noteq> [])"
    by blast
  have "\<exists>c. SearchState.appliedRelaxation s2 =
            (if b then [DropExclude] else []) @ (if c then [ReducePages] else []) \<and>
            (c \<longrightarrow> 1 < SearchFilters.pages fs)"
    using reducePagesRound_state [OF r2]
  proof
    assume "s2 = s1"
    then show ?thesis using l1 by (intro exI [of _ False]) simp
  next
    assume "1 < SearchState.currentPages s1 \<and>
         FilteringResult.items (SearchState.filterResult s1) = [] \<and>
         SearchState.appliedRelaxation s2 = SearchState.appliedRelaxation s1 @ [ReducePages]"
    then show ?thesis using l1 by (intro exI [of _ True]) simp
  qed
  then obtain c where l2: "SearchState.appliedRelaxation s2 =
            (if b then [DropExclude] else []) @ (if c then [ReducePages] else [])"
    "c \<longrightarrow> 1 < SearchFilters.pages fs"
    by blast
  define a where "a = (FilteringResult.appliedRelaxation (SearchState.filterResult s2) = [DropFilterNoise])"
  have "FilteringResult.appliedRelaxation (SearchState.filterResult s2) = (if a then [DropFilterNoise] else [])"
    using first by (auto simp: a_def)
  then have "LowestPriceResponse.appliedRelaxation r =
            (if a then [DropFilterNoise] else []) @ (if b then [DropExclude] else []) @
            (if c then [ReducePages] else [])"
    by (simp only: r buildResponse_fields l2(1))
  then show ?thesis using l1(3) l2(2) by blast
qed

lemma dropExclude_needs_exclude:
  assumes "getLowestPrice R w q fs = (Inr r, w')"
    and "SearchFilters.exclude fs = None \<or> SearchFilters.exclude fs = Some []"
  shows "DropExclude \<notin> set (LowestPriceResponse.appliedRelaxation r)"
proof -
  from relaxation_log_shape [OF assms(1)] obtain a b c where
    shape: "LowestPriceResponse.appliedRelaxation r =
            (if a then [DropFilterNoise] else []) @ (if b then [DropExclude] else []) @
            (if c then [ReducePages] else [])"
    and b: "b \<longrightarrow> (\<exists>e. SearchFilters.exclude fs = Some e \<and> e \<noteq> [])"
    by blast
  have "\<not> b" using b assms(2) by auto
  then show ?thesis by (simp add: shape)
qed

text \<open>
  Claim C2 fails where \<open>dropFilterNoise\<close> fires and a later round fires too: the later round
  replaces the filtering result, and the log is built from the last result's own log, which is
  empty because that round filtered with \<open>filterNoise = false\<close>. Here the request has
  \<open>filterNoise = true\<close> and \<open>exclude = [used]\<close>, and the only item upstream is a used one: the
  initial round drops the noise filter (its log is \<open>[DropFilterNoise]\<close>) and is still empty, the
  second round drops the exclusion, and the search returns the log \<open>[DropExclude]\<close> with
  \<open>appliedFilters.filterNoise = false\<close>.
\<close>

theorem relaxation_log_loses_dropFilterNoise:
  "SearchFilters.filterNoise (sampleFilters (Some 500) (Some 2000) (Some [Used]) 1 True) \<and>
   map_sum id (\<lambda>s. FilteringResult.appliedRelaxation (SearchState.filterResult s))
     (fst (initialRound (sampleRuntime usedPhonePage) 0 []
        (sampleFilters (Some 500) (Some 2000) (Some [Used]) 1 True))) = Inr [DropFilterNoise] \<and>
   map_sum id LowestPriceResponse.appliedRelaxation
     (fst (getLowestPrice (sampleRuntime usedPhonePage) 0 []
        (sampleFilters (Some 500) (Some 2000) (Some [Used]) 1 True))) = Inr [DropExclude] \<and>
   map_sum id (\<lambda>r. AppliedFilters.filterNoise (LowestPriceResponse.appliedFilters r))
     (fst (getLowestPrice (sampleRuntime usedPhonePage) 0 []
        (sampleFilters (Some 500) (Some 2000) (Some [Used]) 1 True))) = Inr False"
  by (simp add: initialRound_usedPhone getLowestPrice_usedPhone filter_usedPhone_round0
      filter_usedPhone_round2 buildResponse_fields)
     (simp add: sampleFilters_def buildResponse_def Let_def extractTopResults_def split: prod.splits)

end
